theory Spec2Isabelle
  imports Main "HOL-Library.Word"
begin

unbundle bit_operations_syntax

section \<open>Data model\<close>

text \<open>
  The embedding follows the three C files: \<^verbatim>\<open>HAL.c\<close> (the block device over a
  \<^verbatim>\<open>FILE*\<close>), \<^verbatim>\<open>FATfs.c\<close> (boot sector, FAT, cluster chains, directory
  listings) and the declarations of \<^verbatim>\<open>FATfs.h\<close> and \<^verbatim>\<open>HAL.h\<close>.
  The \<^verbatim>\<open>static\<close> variables of the two modules become the fields of two records
  that every function takes and returns.

  Conventions of the model:
  \<^item> a byte buffer is a list of \<open>8 word\<close>; a read or write at an index outside the
    buffer is undefined behaviour in C and is the result \<open>Inl OutOfBounds\<close> here;
  \<^item> memory that the program reads before writing it (a fresh \<^verbatim>\<open>malloc\<close> block,
    an uninitialised array on the stack) holds unspecified values: they are taken from
    the parameter \<open>garbage\<close>, and the theorems hold for every such parameter;
  \<^item> \<^verbatim>\<open>malloc\<close> is assumed to succeed;
  \<^item> the image file is a list of bytes; \<^verbatim>\<open>fseek\<close> followed by \<^verbatim>\<open>fread\<close>
    of \<open>n\<close> bytes at position \<open>pos\<close> delivers \<open>take n (drop pos img)\<close>, which is
    shorter than \<open>n\<close> at the end of the file; each such access is also appended to
    \<open>io_log\<close> as the pair (position, requested size);
  \<^item> the call-back registered for file output is modelled by the list \<open>sink_calls\<close>
    of its invocations: the buffer content at the time of the call and the length
    argument.
\<close>

type_synonym byte = "8 word"

datatype fault = OutOfBounds | NullPointer

datatype disk_state_enum_t = GOOD_CONDITION | FAILED_TO_OPEN | BAD_BOOT_SECTOR

record garbage =
  gbyte :: "nat \<Rightarrow> byte"
  gindex :: "nat \<Rightarrow> 16 word"

definition malloc_bytes :: "garbage \<Rightarrow> nat \<Rightarrow> byte list" where
  "malloc_bytes g n = map (gbyte g) [0..<n]"

subsection \<open>Constants of the headers\<close>

definition KMC_DEFAULT_SECTOR_SIZE :: "16 word" where
  "KMC_DEFAULT_SECTOR_SIZE = 512"

definition ENTRIES_PER_SECTOR :: nat where
  "ENTRIES_PER_SECTOR = 16"

definition FAT12_CLUSTER_OFFSET_FACTOR :: "32 word" where
  "FAT12_CLUSTER_OFFSET_FACTOR = 31"

definition DELETED_ENTRY :: byte where
  "DELETED_ENTRY = 0xE5"

definition UNUSED_ENTRY :: byte where
  "UNUSED_ENTRY = 0x00"

definition FAKE_ENTRY :: byte where
  "FAKE_ENTRY = 0x0F"

definition BOOT_SECTOR_BASE_ADDRESS :: "32 word" where
  "BOOT_SECTOR_BASE_ADDRESS = 0"

definition ROOT_DIR_12_PHYSC_BASE_INDEX :: "32 word" where
  "ROOT_DIR_12_PHYSC_BASE_INDEX = 19"

definition ROOT_DIR_12_LOGICAL_BASE_INDEX :: "16 word" where
  "ROOT_DIR_12_LOGICAL_BASE_INDEX = 0"

definition FAT_TABE_PHYSC_BASE_INDEX :: "32 word" where
  "FAT_TABE_PHYSC_BASE_INDEX = 1"

section \<open>HAL.c: the block device\<close>

record hal_state =
  s_file_img :: "byte list option"
  s_sector_size :: "16 word"
  io_log :: "(nat \<times> nat) list"

text \<open>The files that \<^verbatim>\<open>fopen\<close> can open, with their content.\<close>

type_synonym world = "string \<Rightarrow> byte list option"

text \<open>
  \<^verbatim>\<open>fseek(s_file_img, pos, SEEK_SET); fread(buff, 1, n, s_file_img)\<close>:
  the bytes delivered overwrite the start of \<open>buff\<close>; the rest of \<open>buff\<close> keeps
  its content. More bytes than \<open>buff\<close> holds is a buffer overflow.
\<close>

definition seek_read :: "hal_state \<Rightarrow> byte list \<Rightarrow> nat \<Rightarrow> nat \<Rightarrow> byte list
    \<Rightarrow> fault + (nat \<times> byte list \<times> hal_state)" where
  "seek_read h img pos n buff =
     (let data = take n (drop pos img) in
      if length data \<le> length buff
      then Inr (length data, data @ drop (length data) buff,
                h\<lparr>io_log := io_log h @ [(pos, n)]\<rparr>)
      else Inl OutOfBounds)"

definition kmc_read_sector :: "hal_state \<Rightarrow> 32 word \<Rightarrow> byte list
    \<Rightarrow> fault + (nat \<times> byte list \<times> hal_state)" where
  "kmc_read_sector h index buff =
     (case s_file_img h of
        None \<Rightarrow> Inr (0, buff, h)
      | Some img \<Rightarrow>
          seek_read h img (unat (index * ucast (s_sector_size h)))
            (unat (s_sector_size h)) buff)"

definition kmc_read_multi_sector :: "hal_state \<Rightarrow> 32 word \<Rightarrow> 32 word \<Rightarrow> byte list
    \<Rightarrow> fault + (nat \<times> byte list \<times> hal_state)" where
  "kmc_read_multi_sector h index num buff =
     (case s_file_img h of
        None \<Rightarrow> Inr (0, buff, h)
      | Some img \<Rightarrow>
          seek_read h img (unat (index * ucast (s_sector_size h)))
            (unat (num * ucast (s_sector_size h))) buff)"

definition kmc_init :: "world \<Rightarrow> hal_state \<Rightarrow> string \<Rightarrow> byte list option \<times> hal_state" where
  "kmc_init w h file_name =
     (let h1 = h\<lparr>s_file_img := w file_name\<rparr> in
      if s_file_img h1 \<noteq> None
      then (s_file_img h1, h1\<lparr>s_sector_size := KMC_DEFAULT_SECTOR_SIZE\<rparr>)
      else (s_file_img h1, h1))"

definition kmc_update_sector_size :: "hal_state \<Rightarrow> 16 word \<Rightarrow> 32 word \<times> hal_state" where
  "kmc_update_sector_size h bytes_per_sector =
     (let h1 = (if 0 < bytes_per_sector
                   \<and> 0 = bytes_per_sector mod KMC_DEFAULT_SECTOR_SIZE
                   \<and> KMC_DEFAULT_SECTOR_SIZE \<noteq> bytes_per_sector
                then h\<lparr>s_sector_size := bytes_per_sector\<rparr>
                else h)
      in (ucast (s_sector_size h1), h1))"

section \<open>FATfs.c: the FAT12 reader\<close>

record fatfs_boot_sector_struct_t =
  bytes_per_sector :: "16 word"
  sectors_per_cluster :: "8 word"
  reserved_sectors_quantity :: "16 word"
  num_of_FATs :: "8 word"
  max_root_dir_entries :: "16 word"
  total_sectors :: "16 word"
  sectors_per_FAT :: "16 word"
  signature :: "8 word"
  fat_type :: "byte list"

text \<open>
  The listing keeps the four parallel arrays of the C structure; element \<open>i\<close> of each
  belongs to entry \<open>i\<close>.
\<close>

record fatfs_entry_list_struct_t =
  entry_name :: "byte list list"
  attribute :: "byte list"
  first_logical_cluster :: "16 word list"
  entry_size :: "32 word list"
  list_count :: "16 word"

text \<open>
  The static variables of \<^verbatim>\<open>FATfs.c\<close>, the state of the HAL underneath, and the
  invocations of the registered call-back. The linked list \<open>s_cluster_chain\<close> is the
  list of its nodes' cluster numbers, head first; \<open>print_file_callback\<close> tells
  whether a function is registered (the pointer is not \<^verbatim>\<open>NULL\<close>).
\<close>

record fatfs_state =
  hal :: hal_state
  s_FAT12Infor :: fatfs_boot_sector_struct_t
  s_fat_table :: "byte list"
  s_dirlist :: fatfs_entry_list_struct_t
  s_cluster_chain :: "16 word list"
  print_file_callback :: bool
  sink_calls :: "(byte list \<times> 32 word) list"

text \<open>The state of a freshly started program: static storage is zero-initialised.\<close>

definition initial_state :: fatfs_state where
  "initial_state =
     \<lparr>hal = \<lparr>s_file_img = None, s_sector_size = 0, io_log = []\<rparr>,
      s_FAT12Infor = \<lparr>bytes_per_sector = 0, sectors_per_cluster = 0,
        reserved_sectors_quantity = 0, num_of_FATs = 0, max_root_dir_entries = 0,
        total_sectors = 0, sectors_per_FAT = 0, signature = 0,
        fat_type = replicate 8 0\<rparr>,
      s_fat_table = [],
      s_dirlist = \<lparr>entry_name = [], attribute = [], first_logical_cluster = [],
        entry_size = [], list_count = 0\<rparr>,
      s_cluster_chain = [],
      print_file_callback = False,
      sink_calls = []\<rparr>"

subsection \<open>Static functions\<close>

definition fatfs_clear_cluster_chain :: "fatfs_state \<Rightarrow> fatfs_state" where
  "fatfs_clear_cluster_chain st = st\<lparr>s_cluster_chain := []\<rparr>"

text \<open>\<^verbatim>\<open>strlen\<close>: the number of bytes before the first zero byte.\<close>

definition strlen :: "byte list \<Rightarrow> 32 word" where
  "strlen hex_line = of_nat (length (takeWhile (\<lambda>b. b \<noteq> 0) hex_line))"

text \<open>
  \<^verbatim>\<open>hex_to_decimal\<close>. The loop \<^verbatim>\<open>for (i = 0; i < bytes_count; i++)\<close> is a
  recursion over \<open>[0..<bytes_count]\<close>. The byte is promoted to a 32-bit \<^verbatim>\<open>int\<close>,
  shifted, and converted to the 64-bit accumulator with sign extension. The guard
  \<^verbatim>\<open>index >= line_length && index < 0\<close> is kept as written; \<open>index\<close> is unsigned.
  The callers make sure that the bytes read lie inside \<open>hex_line\<close>.
\<close>

fun hex_loop :: "byte list \<Rightarrow> 32 word \<Rightarrow> nat list \<Rightarrow> 64 word \<Rightarrow> 64 word" where
  "hex_loop hex_line index [] decimal_value = decimal_value"
| "hex_loop hex_line index (i # is) decimal_value =
     (let byte_offset = index + of_nat i in
      hex_loop hex_line index is
        (decimal_value
           + scast (push_bit (8 * i) (ucast (hex_line ! unat byte_offset) :: 32 word))))"

definition hex_to_decimal :: "byte list \<Rightarrow> 32 word \<Rightarrow> 8 word \<Rightarrow> 64 word" where
  "hex_to_decimal hex_line index bytes_count =
     (let line_length = strlen hex_line in
      if index \<ge> line_length \<and> index < 0 then 0
      else hex_loop hex_line index [0..<unat bytes_count] 0)"

definition read_FAT_entry :: "fatfs_state \<Rightarrow> 16 word \<Rightarrow> fault + 16 word" where
  "read_FAT_entry st logical_cluster =
     (let off = (3 * unat logical_cluster) div 2 in
      if off + 1 < length (s_fat_table st) then
        if logical_cluster AND 1 \<noteq> 0 then
          (let four_bits = ucast (drop_bit 4 (s_fat_table st ! off)) :: 16 word;
               eight_bits = push_bit 4 (ucast (s_fat_table st ! (off + 1))) :: 16 word
           in Inr (four_bits + eight_bits))
        else
          (let four_bits = push_bit 8 (ucast (s_fat_table st ! (off + 1) AND 0x0f)) :: 16 word;
               eight_bits = ucast (s_fat_table st ! off) :: 16 word
           in Inr (four_bits + eight_bits))
      else Inl OutOfBounds)"

definition fatfs_add_node :: "fatfs_state \<Rightarrow> 16 word \<Rightarrow> fatfs_state" where
  "fatfs_add_node st logical_cluster =
     st\<lparr>s_cluster_chain := s_cluster_chain st @ [logical_cluster]\<rparr>"

text \<open>
  The \<^verbatim>\<open>while (logical_cluster < 0xFF8)\<close> loop of \<^verbatim>\<open>fatfs_get_cluster_chain\<close>.
  Nothing bounds it, so it is a partial function: \<open>None\<close> is the loop that never ends.
\<close>

partial_function (option) chain_loop ::
    "fatfs_state \<Rightarrow> 16 word \<Rightarrow> 32 word \<Rightarrow> (fault + (32 word \<times> fatfs_state)) option" where
  "chain_loop st logical_cluster chain_length =
     (if logical_cluster < 0xFF8 then
        (case read_FAT_entry st logical_cluster of
           Inl e \<Rightarrow> Some (Inl e)
         | Inr nxt \<Rightarrow> chain_loop (fatfs_add_node st nxt) nxt (chain_length + 1))
      else Some (Inr (chain_length, st)))"

definition fatfs_get_cluster_chain ::
    "fatfs_state \<Rightarrow> 16 word \<Rightarrow> (fault + (32 word \<times> fatfs_state)) option" where
  "fatfs_get_cluster_chain st first_cluster =
     (case chain_loop (fatfs_add_node st first_cluster) first_cluster 1 of
        None \<Rightarrow> None
      | Some (Inl e) \<Rightarrow> Some (Inl e)
      | Some (Inr (chain_length, st1)) \<Rightarrow> Some (Inr (chain_length - 1, st1)))"

subsection \<open>fatfs\_init\<close>

text \<open>
  The local variable \<^verbatim>\<open>state\<close> is threaded through the two consecutive
  \<^verbatim>\<open>if\<close> statements as in the source: the first one assigns
  \<^verbatim>\<open>FAILED_TO_OPEN\<close> or leaves the initial value 0 (\<^verbatim>\<open>GOOD_CONDITION\<close>), the second
  one assigns in both of its branches. The boot sector buffer is a 512-byte array;
  \<open>read_boot_fields\<close> is the block of assignments to \<^verbatim>\<open>s_FAT12Infor\<close> from it.
\<close>

definition read_boot_fields :: "byte list \<Rightarrow> fatfs_boot_sector_struct_t" where
  "read_boot_fields buffer =
     \<lparr>bytes_per_sector = ucast (hex_to_decimal buffer 11 2),
      sectors_per_cluster = ucast (hex_to_decimal buffer 13 1),
      reserved_sectors_quantity = ucast (hex_to_decimal buffer 14 2),
      num_of_FATs = ucast (hex_to_decimal buffer 16 1),
      max_root_dir_entries = ucast (hex_to_decimal buffer 17 2),
      total_sectors = ucast (hex_to_decimal buffer 19 2),
      sectors_per_FAT = ucast (hex_to_decimal buffer 22 2),
      signature = ucast (hex_to_decimal buffer 38 1),
      fat_type = map (\<lambda>i. buffer ! (54 + i)) [0..<8]\<rparr>"

definition boot_sector_invalid :: "fatfs_boot_sector_struct_t \<Rightarrow> bool" where
  "boot_sector_invalid b =
     (bytes_per_sector b mod 512 \<noteq> 0
      \<or> (bytes_per_sector b < 1 \<and> reserved_sectors_quantity b < 1
          \<and> num_of_FATs b < 2 \<and> max_root_dir_entries b mod 16 \<noteq> 0))"

definition fatfs_init :: "garbage \<Rightarrow> world \<Rightarrow> fatfs_state \<Rightarrow> string
    \<Rightarrow> fault + (disk_state_enum_t \<times> fatfs_state)" where
  "fatfs_init g w st file_name =
     (let (disk_ptr, h1) = kmc_init w (hal st) file_name;
          buffer0 = malloc_bytes g 512
      in
      case (if disk_ptr = None then Inr (FAILED_TO_OPEN, st\<lparr>hal := h1\<rparr>)
            else
              (case kmc_read_sector h1 BOOT_SECTOR_BASE_ADDRESS buffer0 of
                 Inl e \<Rightarrow> Inl e
               | Inr (n, buffer, h2) \<Rightarrow>
                   Inr (GOOD_CONDITION,
                        st\<lparr>hal := h2, s_FAT12Infor := read_boot_fields buffer\<rparr>)))
      of
        Inl e \<Rightarrow> Inl e
      | Inr (state1, st1) \<Rightarrow>
          if boot_sector_invalid (s_FAT12Infor st1)
          then Inr (BAD_BOOT_SECTOR, st1)
          else
            (let (sector_size, h3) =
                   kmc_update_sector_size (hal st1) (bytes_per_sector (s_FAT12Infor st1));
                 fat0 = malloc_bytes g
                   (unat sector_size * unat (sectors_per_FAT (s_FAT12Infor st1)))
             in
             case kmc_read_multi_sector h3 FAT_TABE_PHYSC_BASE_INDEX
                    (ucast (sectors_per_FAT (s_FAT12Infor st1))) fat0 of
               Inl e \<Rightarrow> Inl e
             | Inr (n, fat, h4) \<Rightarrow>
                 Inr (GOOD_CONDITION, st1\<lparr>hal := h4, s_fat_table := fat\<rparr>)))"

subsection \<open>fatfs\_read\_dir\<close>

text \<open>
  The loop over the cluster chain in the subdirectory branch:
  \<^verbatim>\<open>while (temp->next != NULL)\<close> reads one sector for every node but the last
  into \<^verbatim>\<open>buffer + i\<close> and advances \<open>i\<close> by \<open>bytes_per_sector\<close>.
\<close>

fun read_chain_sectors :: "fatfs_state \<Rightarrow> 16 word list \<Rightarrow> byte list \<Rightarrow> 32 word
    \<Rightarrow> fault + (byte list \<times> fatfs_state)" where
  "read_chain_sectors st [] buffer i = Inl NullPointer"
| "read_chain_sectors st [c] buffer i = Inr (buffer, st)"
| "read_chain_sectors st (c # c' # cs) buffer i =
     (case kmc_read_sector (hal st) (ucast c + FAT12_CLUSTER_OFFSET_FACTOR)
             (drop (unat i) buffer) of
        Inl e \<Rightarrow> Inl e
      | Inr (n, region, h) \<Rightarrow>
          read_chain_sectors (st\<lparr>hal := h\<rparr>) (c' # cs)
            (take (unat i) buffer @ region)
            (i + ucast (bytes_per_sector (s_FAT12Infor st))))"

text \<open>
  The first part of \<^verbatim>\<open>fatfs_read_dir\<close>: the directory content is brought into
  \<open>buffer\<close>. The result is the buffer, the number of elements allocated for
  \<^verbatim>\<open>entries_index\<close>, and the state.
\<close>

definition read_dir_buffer :: "garbage \<Rightarrow> fatfs_state \<Rightarrow> 16 word
    \<Rightarrow> (fault + (byte list \<times> nat \<times> fatfs_state)) option" where
  "read_dir_buffer g st first_cluster =
     (if ROOT_DIR_12_LOGICAL_BASE_INDEX = first_cluster then
        (let root_dir_cluster_count =
               ucast (max_root_dir_entries (s_FAT12Infor st) div 16) :: 32 word;
             buffer_size =
               ucast (bytes_per_sector (s_FAT12Infor st)) * root_dir_cluster_count;
             buffer0 = malloc_bytes g (unat buffer_size)
         in
         case kmc_read_multi_sector (hal st) ROOT_DIR_12_PHYSC_BASE_INDEX
                root_dir_cluster_count buffer0 of
           Inl e \<Rightarrow> Some (Inl e)
         | Inr (n, buffer, h) \<Rightarrow>
             Some (Inr (buffer, unat (max_root_dir_entries (s_FAT12Infor st)),
                        st\<lparr>hal := h\<rparr>)))
      else if first_cluster > ROOT_DIR_12_LOGICAL_BASE_INDEX then
        (case fatfs_get_cluster_chain st first_cluster of
           None \<Rightarrow> None
         | Some (Inl e) \<Rightarrow> Some (Inl e)
         | Some (Inr (chain_length, st1)) \<Rightarrow>
             (let buffer_size =
                    chain_length * ucast (bytes_per_sector (s_FAT12Infor st1));
                  buffer0 = malloc_bytes g (unat buffer_size)
              in
              case read_chain_sectors st1 (s_cluster_chain st1) buffer0 0 of
                Inl e \<Rightarrow> Some (Inl e)
              | Inr (buffer, st2) \<Rightarrow>
                  Some (Inr (buffer, unat chain_length * ENTRIES_PER_SECTOR, st2))))
      else Some (Inr ([], 0, st)))"

text \<open>
  The loop \<^verbatim>\<open>for (i = 0; i < buffer_size; i += 32)\<close>. The buffer has
  \<open>buffer_size\<close> bytes, so \<^verbatim>\<open>buffer[i]\<close> is inside it; \<^verbatim>\<open>buffer[i + 11]\<close> is
  read only when the first two tests succeed. \<open>cap\<close> is the number of elements of
  \<^verbatim>\<open>entries_index\<close>, \<open>entries_index\<close> the elements written so far (\<open>j\<close> is its
  length); they are 16-bit, so the offset \<open>i\<close> is truncated when stored.
  \<open>count\<close> is the 16-bit \<^verbatim>\<open>s_dirlist.list_count\<close>; the loop starts from the
  value it finds there.
\<close>

function scan_loop :: "byte list \<Rightarrow> nat \<Rightarrow> nat \<Rightarrow> 16 word list \<Rightarrow> 16 word
    \<Rightarrow> fault + (16 word list \<times> 16 word)" where
  "scan_loop buffer cap i entries_index count =
     (if i < length buffer then
        (if DELETED_ENTRY \<noteq> buffer ! i \<and> UNUSED_ENTRY \<noteq> buffer ! i then
           (if i + 11 < length buffer then
              (if FAKE_ENTRY \<noteq> buffer ! (i + 11) then
                 (if length entries_index < cap then
                    scan_loop buffer cap (i + 32) (entries_index @ [of_nat i])
                      (count + 1)
                  else Inl OutOfBounds)
               else scan_loop buffer cap (i + 32) entries_index count)
            else Inl OutOfBounds)
         else scan_loop buffer cap (i + 32) entries_index count)
      else Inr (entries_index, count))"
  by pat_completeness auto
termination
  by (relation "measure (\<lambda>(buffer, cap, i, entries_index, count). length buffer - i)")
     auto

declare scan_loop.simps [simp del]

text \<open>
  The loop \<^verbatim>\<open>for (i = 0; i < s_dirlist.list_count; i++)\<close> that fills the four
  arrays, freshly allocated with \<open>list_count\<close> elements each; element \<open>i\<close> is written
  in step \<open>i\<close>, so the arrays grow at the end. An element of \<^verbatim>\<open>entries_index\<close> at or
  after \<open>j\<close> was never written: inside the allocation it is an unspecified value,
  outside it is out of bounds. The 32 bytes of the entry are read from the buffer.
\<close>

fun fill_loop :: "garbage \<Rightarrow> byte list \<Rightarrow> 16 word list \<Rightarrow> nat \<Rightarrow> nat list
    \<Rightarrow> fatfs_entry_list_struct_t \<Rightarrow> fault + fatfs_entry_list_struct_t" where
  "fill_loop g buffer entries_index cap [] dl = Inr dl"
| "fill_loop g buffer entries_index cap (i # is) dl =
     (if i < cap then
        (let e = (if i < length entries_index then entries_index ! i else gindex g i) in
         if unat e + 32 \<le> length buffer then
           fill_loop g buffer entries_index cap is
             (dl\<lparr>entry_name := entry_name dl @ [take 11 (drop (unat e) buffer) @ [0]],
                 attribute := attribute dl @ [buffer ! (unat e + 11)],
                 first_logical_cluster := first_logical_cluster dl
                   @ [ucast (hex_to_decimal buffer (ucast e + 26) 2)],
                 entry_size := entry_size dl
                   @ [ucast (hex_to_decimal buffer (ucast e + 28) 4)]\<rparr>)
         else Inl OutOfBounds)
      else Inl OutOfBounds)"

text \<open>
  \<^verbatim>\<open>fatfs_read_dir\<close>. The counter \<open>i\<close> of the scan is a \<^verbatim>\<open>uint32_t\<close>: with a
  buffer of more than \<open>2\<^sup>3\<^sup>2 - 32\<close> bytes \<open>i += 32\<close> would wrap around below
  \<open>buffer_size\<close> for ever, which is the result \<open>None\<close>.
\<close>

definition fatfs_read_dir :: "garbage \<Rightarrow> fatfs_state \<Rightarrow> 16 word
    \<Rightarrow> (fault + fatfs_state) option" where
  "fatfs_read_dir g st first_cluster =
     (case read_dir_buffer g st first_cluster of
        None \<Rightarrow> None
      | Some (Inl e) \<Rightarrow> Some (Inl e)
      | Some (Inr (buffer, cap, st1)) \<Rightarrow>
          if 2 ^ 32 - 32 < length buffer then None
          else
            Some (case scan_loop buffer cap 0 [] (list_count (s_dirlist st1)) of
                Inl e \<Rightarrow> Inl e
              | Inr (entries_index, cnt) \<Rightarrow>
                  (case fill_loop g buffer entries_index cap [0..<unat cnt]
                          \<lparr>entry_name = [], attribute = [], first_logical_cluster = [],
                           entry_size = [], list_count = cnt\<rparr> of
                     Inl e \<Rightarrow> Inl e
                   | Inr dl \<Rightarrow> Inr (fatfs_clear_cluster_chain (st1\<lparr>s_dirlist := dl\<rparr>)))))"

subsection \<open>fatfs\_clear\_dir\_list, fatfs\_read\_file\<close>


definition ResgisterPrint_file_func :: "fatfs_state \<Rightarrow> fatfs_state" where
  "ResgisterPrint_file_func st = st\<lparr>print_file_callback := True\<rparr>"

text \<open>
  The loop of \<^verbatim>\<open>fatfs_read_file\<close>: for every node but the last, one sector is read
  into \<open>file_content\<close> and the call-back is invoked with \<open>file_content\<close> and
  \<open>bytes_per_sector\<close>.
\<close>

fun read_file_loop :: "fatfs_state \<Rightarrow> 16 word list \<Rightarrow> byte list
    \<Rightarrow> fault + (byte list \<times> fatfs_state)" where
  "read_file_loop st [] file_content = Inl NullPointer"
| "read_file_loop st [c] file_content = Inr (file_content, st)"
| "read_file_loop st (c # c' # cs) file_content =
     (case kmc_read_sector (hal st) (ucast c + FAT12_CLUSTER_OFFSET_FACTOR) file_content of
        Inl e \<Rightarrow> Inl e
      | Inr (n, file_content1, h) \<Rightarrow>
          if print_file_callback st then
            read_file_loop
              (st\<lparr>hal := h,
                  sink_calls := sink_calls st
                    @ [(file_content1, ucast (bytes_per_sector (s_FAT12Infor st)))]\<rparr>)
              (c' # cs) file_content1
          else Inl NullPointer)"

definition fatfs_read_file :: "garbage \<Rightarrow> fatfs_state \<Rightarrow> 16 word
    \<Rightarrow> (fault + fatfs_state) option" where
  "fatfs_read_file g st first_cluster =
     (case fatfs_get_cluster_chain st first_cluster of
        None \<Rightarrow> None
      | Some (Inl e) \<Rightarrow> Some (Inl e)
      | Some (Inr (chain_length, st1)) \<Rightarrow>
          (let file_content0 =
                 malloc_bytes g (unat (bytes_per_sector (s_FAT12Infor st1)))
           in
           case read_file_loop st1 (s_cluster_chain st1) file_content0 of
             Inl e \<Rightarrow> Some (Inl e)
           | Inr (file_content, st2) \<Rightarrow> Some (Inr (fatfs_clear_cluster_chain st2))))"

section \<open>Test images\<close>

text \<open>
  A 1.44 MB floppy layout cut after the first data sector: boot sector, two copies of a
  nine-sector FAT, a root directory of 14 sectors, and cluster 2 at sector 33. The boot
  sector is a function of the fields that the examples vary.
\<close>

definition zero_garbage :: garbage where
  "zero_garbage = \<lparr>gbyte = (\<lambda>k. 0), gindex = (\<lambda>k. 0)\<rparr>"

definition boot_sector :: "byte \<Rightarrow> byte \<Rightarrow> byte \<Rightarrow> byte \<Rightarrow> byte \<Rightarrow> byte \<Rightarrow> byte list" where
  "boot_sector bps_lo bps_hi spc root_lo root_hi spf =
     [0xEB, 0x3C, 0x90, 0x4D, 0x53, 0x44, 0x4F, 0x53, 0x35, 0x2E, 0x30,
      bps_lo, bps_hi, spc, 1, 0, 2, root_lo, root_hi, 0x40, 0x0B, 0xF0, spf, 0]
     @ replicate 14 0 @ [0x29] @ replicate 15 0
     @ [0x46, 0x41, 0x54, 0x31, 0x32, 0x20, 0x20, 0x20] @ replicate 448 0 @ [0x55, 0xAA]"

definition boot_info :: "16 word \<Rightarrow> 8 word \<Rightarrow> 16 word \<Rightarrow> 16 word
    \<Rightarrow> fatfs_boot_sector_struct_t" where
  "boot_info bps spc root spf =
     \<lparr>bytes_per_sector = bps, sectors_per_cluster = spc,
      reserved_sectors_quantity = 1, num_of_FATs = 2, max_root_dir_entries = root,
      total_sectors = 2880, sectors_per_FAT = spf, signature = 0x29,
      fat_type = [0x46, 0x41, 0x54, 0x31, 0x32, 0x20, 0x20, 0x20]\<rparr>"

definition hello_fat :: "byte list" where
  "hello_fat = [0xF0, 0xFF, 0xFF, 0xFF, 0x0F, 0x00] @ replicate 4602 0"

definition hello_entry :: "byte list" where
  "hello_entry =
     [0x48, 0x45, 0x4C, 0x4C, 0x4F, 0x20, 0x20, 0x20, 0x54, 0x58, 0x54, 0x20]
     @ replicate 14 0 @ [0x02, 0x00, 0x0D, 0x00, 0x00, 0x00]"

definition hello_root :: "byte list" where
  "hello_root = hello_entry @ replicate 7136 0"

definition hello_data :: "byte list" where
  "hello_data =
     [0x48, 0x65, 0x6C, 0x6C, 0x6F, 0x2C, 0x20, 0x77, 0x6F, 0x72, 0x6C, 0x64, 0x21]
     @ replicate 499 0"

definition floppy_image :: "byte list \<Rightarrow> byte list \<Rightarrow> byte list \<Rightarrow> byte list
    \<Rightarrow> byte list" where
  "floppy_image boot fat root data = boot @ fat @ fat @ root @ data"

definition one_file :: "byte list \<Rightarrow> world" where
  "one_file img = (\<lambda>p. if p = ''floppy.img'' then Some img else None)"

definition no_file :: world where
  "no_file = (\<lambda>p. None)"

text \<open>The image of the stock floppy with one file, and the same with
  \<open>bytes_per_sector = 0\<close> in the boot sector.\<close>

definition hello_image :: "byte list" where
  "hello_image = floppy_image (boot_sector 0 2 1 0xE0 0 9) hello_fat hello_root hello_data"

definition zero_bps_image :: "byte list" where
  "zero_bps_image =
     floppy_image (boot_sector 0 0 1 0xE0 0 9) hello_fat hello_root hello_data"

text \<open>The state that \<^verbatim>\<open>fatfs_init\<close> leaves for an image, from the initial state.\<close>

definition ready_state :: "byte list \<Rightarrow> fatfs_boot_sector_struct_t \<Rightarrow> 16 word
    \<Rightarrow> byte list \<Rightarrow> fatfs_state" where
  "ready_state img b ss fat =
     initial_state
       \<lparr>hal := \<lparr>s_file_img = Some img, s_sector_size = ss,
                io_log = [(0, 512), (unat ss, unat (sectors_per_FAT b) * unat ss)]\<rparr>,
        s_FAT12Infor := b,
        s_fat_table := fat\<rparr>"

text \<open>The state after \<^verbatim>\<open>fatfs_init\<close> on the stock image and the registration of
  the call-back.\<close>

definition hello_state :: fatfs_state where
  "hello_state =
     ResgisterPrint_file_func
       (ready_state hello_image (boot_info 512 1 224 9) 512 hello_fat)"

section \<open>Following the FAT\<close>

text \<open>
  Two notions used to state what the chain walk does. \<open>fat_follow st n c\<close> is the
  cluster number reached from \<open>c\<close> by \<open>n\<close> FAT look-ups, each made from a number
  below \<open>0xFF8\<close> whose entry lies inside the FAT buffer. \<open>chain_linked st cs\<close>
  says that in the list \<open>cs\<close> every element but the last is below \<open>0xFF8\<close> and
  has the next element as its FAT entry.
\<close>

fun fat_follow :: "fatfs_state \<Rightarrow> nat \<Rightarrow> 16 word \<Rightarrow> 16 word option" where
  "fat_follow st 0 c = Some c"
| "fat_follow st (Suc n) c =
     (if c < 0xFF8 then
        (case read_FAT_entry st c of Inl e \<Rightarrow> None | Inr v \<Rightarrow> fat_follow st n v)
      else None)"

text \<open>The numbers found by the first \<open>n\<close> look-ups from \<open>c\<close>.\<close>

fun fat_path :: "fatfs_state \<Rightarrow> nat \<Rightarrow> 16 word \<Rightarrow> 16 word list" where
  "fat_path st 0 c = []"
| "fat_path st (Suc n) c =
     (case read_FAT_entry st c of Inl e \<Rightarrow> [] | Inr v \<Rightarrow> v # fat_path st n v)"

fun chain_linked :: "fatfs_state \<Rightarrow> 16 word list \<Rightarrow> bool" where
  "chain_linked st [] = True"
| "chain_linked st [c] = True"
| "chain_linked st (c # c' # cs) =
     (c < 0xFF8 \<and> read_FAT_entry st c = Inr c' \<and> chain_linked st (c' # cs))"

text \<open>The walk goes no further from \<open>v\<close>: \<open>v\<close> is a terminal value and the loop
  is left, or the look-up of \<open>v\<close> is outside the FAT buffer, which is undefined
  behaviour in the program and a fault here.\<close>

definition walk_stops :: "fatfs_state \<Rightarrow> 16 word \<Rightarrow> bool" where
  "walk_stops st v = (0xFF8 \<le> v \<or> isl (read_FAT_entry st v))"

text \<open>A FAT in which the entry of cluster 2 is 2, and the stock image with it.\<close>

definition cycle_fat :: "byte list" where
  "cycle_fat = [0xF0, 0xFF, 0xFF, 0x02, 0x00, 0x00] @ replicate 4602 0"

definition cycle_image :: "byte list" where
  "cycle_image = floppy_image (boot_sector 0 2 1 0xE0 0 9) cycle_fat hello_root hello_data"

definition cycle_state :: fatfs_state where
  "cycle_state =
     ResgisterPrint_file_func
       (ready_state cycle_image (boot_info 512 1 224 9) 512 cycle_fat)"

text \<open>The stock layout with two sectors per cluster; cluster 2 is sectors 33 and 34.\<close>

definition spc2_image :: "byte list" where
  "spc2_image =
     floppy_image (boot_sector 0 2 2 0xE0 0 9) hello_fat hello_root
       (hello_data @ replicate 512 0x2E)"

definition spc2_state :: fatfs_state where
  "spc2_state =
     ResgisterPrint_file_func
       (ready_state spc2_image (boot_info 512 2 224 9) 512 hello_fat)"

section \<open>Directory entries and geometry, for the statements\<close>

text \<open>
  \<open>entry_listed buffer i\<close> is the test that the scan applies to the entry at offset
  \<open>i\<close>; \<open>listed_from buffer i\<close> collects, in on-disk order, the offsets
  \<open>i, i + 32, \<dots>\<close> below the buffer size that pass it; \<open>slot_offsets n\<close> are the
  offsets of the 32-byte entries of a buffer of \<open>n\<close> bytes.
\<close>

definition entry_listed :: "byte list \<Rightarrow> nat \<Rightarrow> bool" where
  "entry_listed buffer i =
     (buffer ! i \<noteq> 0xE5 \<and> buffer ! i \<noteq> 0x00 \<and> buffer ! (i + 11) \<noteq> 0x0F)"

function listed_from :: "byte list \<Rightarrow> nat \<Rightarrow> nat list" where
  "listed_from buffer i =
     (if i < length buffer
      then (if entry_listed buffer i then [i] else []) @ listed_from buffer (i + 32)
      else [])"
  by pat_completeness auto
termination
  by (relation "measure (\<lambda>(buffer, i). length buffer - i)") auto

declare listed_from.simps [simp del]

definition slot_offsets :: "nat \<Rightarrow> nat list" where
  "slot_offsets n = map (\<lambda>k. 32 * k) [0..<n div 32]"

text \<open>The fields that the fill loop extracts from the entry at offset \<open>e\<close>.\<close>

definition name_at :: "byte list \<Rightarrow> nat \<Rightarrow> byte list" where
  "name_at buffer e = take 11 (drop e buffer) @ [0]"

definition attribute_at :: "byte list \<Rightarrow> nat \<Rightarrow> byte" where
  "attribute_at buffer e = buffer ! (e + 11)"

definition first_cluster_at :: "byte list \<Rightarrow> nat \<Rightarrow> 16 word" where
  "first_cluster_at buffer e = ucast (hex_to_decimal buffer (of_nat e + 26) 2)"

definition size_at :: "byte list \<Rightarrow> nat \<Rightarrow> 32 word" where
  "size_at buffer e = ucast (hex_to_decimal buffer (of_nat e + 28) 4)"

text \<open>
  The element of \<^verbatim>\<open>entries_index\<close> that the fill loop reads at position \<open>i\<close>: the
  value written by the scan, or an unspecified value where nothing was written.
\<close>

definition index_at :: "garbage \<Rightarrow> 16 word list \<Rightarrow> nat \<Rightarrow> nat" where
  "index_at g entries_index i =
     unat (if i < length entries_index then entries_index ! i else gindex g i)"

text \<open>The geometry that the specification derives from the boot sector fields.\<close>

definition spec_root_dir_sector :: "fatfs_boot_sector_struct_t \<Rightarrow> nat" where
  "spec_root_dir_sector b =
     unat (reserved_sectors_quantity b) + unat (num_of_FATs b) * unat (sectors_per_FAT b)"

definition spec_root_dir_sectors :: "fatfs_boot_sector_struct_t \<Rightarrow> nat" where
  "spec_root_dir_sectors b =
     (unat (max_root_dir_entries b) * 32 + unat (bytes_per_sector b) - 1)
       div unat (bytes_per_sector b)"

definition spec_data_region_sector :: "fatfs_boot_sector_struct_t \<Rightarrow> nat" where
  "spec_data_region_sector b = spec_root_dir_sector b + spec_root_dir_sectors b"

definition spec_cluster_to_sector :: "fatfs_boot_sector_struct_t \<Rightarrow> 16 word \<Rightarrow> nat" where
  "spec_cluster_to_sector b c =
     spec_data_region_sector b + (unat c - 2) * unat (sectors_per_cluster b)"

text \<open>
  A volume with 1024-byte sectors and five sectors per FAT: the root directory is in
  sectors 11 to 17 and cluster 2 is sector 18. The image ends after sector 33; the
  sectors from 19 on are empty.
\<close>

definition g1024_fat :: "byte list" where
  "g1024_fat = [0xF0, 0xFF, 0xFF, 0xFF, 0x0F, 0x00] @ replicate 5114 0"

definition g1024_image :: "byte list" where
  "g1024_image =
     boot_sector 0 4 1 0xE0 0 5 @ replicate 512 0 @ g1024_fat @ g1024_fat
     @ hello_root @ (hello_data @ replicate 512 0) @ replicate 15360 0"

definition g1024_state :: fatfs_state where
  "g1024_state =
     ResgisterPrint_file_func
       (ready_state g1024_image (boot_info 1024 1 224 5) 1024 g1024_fat)"

text \<open>
  The stock layout with 2064 root directory entries (129 sectors, 66048 bytes). The
  first entry is a deleted file, the entry at offset 65536 is the file of the stock
  image, all other entries are unused.
\<close>

definition deleted_entry :: "byte list" where
  "deleted_entry =
     [0xE5, 0x4C, 0x44, 0x20, 0x20, 0x20, 0x20, 0x20, 0x54, 0x58, 0x54, 0x20]
     @ replicate 14 0 @ [0x03, 0x00, 0x07, 0x00, 0x00, 0x00]"

definition big_root :: "byte list" where
  "big_root = deleted_entry @ replicate 65504 0 @ hello_entry @ replicate 480 0"

definition big_root_image :: "byte list" where
  "big_root_image = boot_sector 0 2 1 0x10 0x08 9 @ hello_fat @ hello_fat @ big_root"

definition big_root_state :: fatfs_state where
  "big_root_state =
     ResgisterPrint_file_func
       (ready_state big_root_image (boot_info 512 1 2064 9) 512 hello_fat)"

text \<open>The listing of the root directory of the stock image.\<close>

definition hello_listing :: "16 word \<Rightarrow> fatfs_entry_list_struct_t" where
  "hello_listing n =
     \<lparr>entry_name = replicate (unat n)
        [0x48, 0x45, 0x4C, 0x4C, 0x4F, 0x20, 0x20, 0x20, 0x54, 0x58, 0x54, 0x00],
      attribute = replicate (unat n) 0x20,
      first_logical_cluster = replicate (unat n) 2,
      entry_size = replicate (unat n) 13,
      list_count = n\<rparr>"

text \<open>The stock image after one and after two readings of the root directory with no
  clearing of the listing in between.\<close>

definition hello_once :: fatfs_state where
  "hello_once =
     hello_state
       \<lparr>hal := (hal hello_state)\<lparr>io_log := [(0, 512), (512, 4608), (9728, 7168)]\<rparr>,
        s_dirlist := hello_listing 1\<rparr>"


definition big_root_listing :: fatfs_entry_list_struct_t where
  "big_root_listing =
     \<lparr>entry_name = [[0xE5, 0x4C, 0x44, 0x20, 0x20, 0x20, 0x20, 0x20, 0x54, 0x58, 0x54, 0x00]],
      attribute = [0x20],
      first_logical_cluster = [3],
      entry_size = [7],
      list_count = 1\<rparr>"

section \<open>Basic facts\<close>

lemma upt_0_2: "[0..<2] = [0, 1]"
  by (simp add: upt_conv_Cons)

lemma upt_0_4: "[0..<4] = [0, 1, 2, 3]"
  by (simp add: upt_conv_Cons)

lemma upt_0_8: "[0..<8] = [0, 1, 2, 3, 4, 5, 6, 7]"
  by (simp add: upt_conv_Cons)

lemma hex_to_decimal_1:
  "hex_to_decimal b i 1 = scast (ucast (b ! unat i) :: 32 word)"
  by (simp add: hex_to_decimal_def)

lemma hex_to_decimal_2:
  "hex_to_decimal b i 2 =
     scast (ucast (b ! unat i) :: 32 word)
     + scast (push_bit 8 (ucast (b ! unat (i + 1)) :: 32 word))"
  by (simp add: hex_to_decimal_def upt_0_2)

lemma hex_to_decimal_4:
  "hex_to_decimal b i 4 =
     scast (ucast (b ! unat i) :: 32 word)
     + scast (push_bit 8 (ucast (b ! unat (i + 1)) :: 32 word))
     + scast (push_bit 16 (ucast (b ! unat (i + 2)) :: 32 word))
     + scast (push_bit 24 (ucast (b ! unat (i + 3)) :: 32 word))"
  by (simp add: hex_to_decimal_def upt_0_4)

lemma length_malloc_bytes [simp]: "length (malloc_bytes g n) = n"
  by (simp add: malloc_bytes_def)

lemma unat_ucast_up:
  "LENGTH('a::len) \<le> LENGTH('b::len) \<Longrightarrow> unat (ucast (a :: 'a word) :: 'b word) = unat a"
  by (simp add: unsigned_ucast_eq take_bit_nat_eq_self less_le_trans [OF unsigned_less])

lemma unat_mult_16_32:
  "unat (ucast (a :: 16 word) * ucast (b :: 16 word) :: 32 word) = unat a * unat b"
proof -
  have a: "unat a < 2 ^ 16" and b: "unat b < 2 ^ 16"
    using unsigned_less [of a, where ?'a = nat] unsigned_less [of b, where ?'a = nat]
    by simp_all
  then have "unat a * unat b < 2 ^ 16 * 2 ^ 16"
    by (intro mult_strict_mono) simp_all
  then have "unat (ucast a :: 32 word) * unat (ucast b :: 32 word) < 2 ^ LENGTH(32)"
    by (simp add: unat_ucast_up)
  then show ?thesis
    by (simp add: unat_mult_lem [THEN iffD1] unat_ucast_up)
qed

lemma seek_read_full:
  assumes "pos + n \<le> length img" "n = length buff"
  shows "seek_read h img pos n buff
           = Inr (n, take n (drop pos img), h\<lparr>io_log := io_log h @ [(pos, n)]\<rparr>)"
  using assms by (auto simp: seek_read_def Let_def)

section \<open>fatfs\_init\<close>

lemma kmc_init_closed:
  "w f = None \<Longrightarrow> kmc_init w h f = (None, h\<lparr>s_file_img := None\<rparr>)"
  by (simp add: kmc_init_def)

lemma kmc_init_open:
  "w f = Some img \<Longrightarrow>
   kmc_init w h f = (Some img, h\<lparr>s_file_img := Some img, s_sector_size := 512\<rparr>)"
  by (simp add: kmc_init_def KMC_DEFAULT_SECTOR_SIZE_def)

text \<open>
  Whatever the image, the result of \<^verbatim>\<open>fatfs_init\<close> is decided by the test on the
  boot sector fields alone: the value assigned to \<^verbatim>\<open>state\<close> when the file could
  not be opened is overwritten.
\<close>

lemma fatfs_init_never_failed_to_open:
  "fatfs_init g w st f \<noteq> Inr (FAILED_TO_OPEN, st')"
  by (auto simp: fatfs_init_def Let_def split: prod.splits sum.splits if_splits)

lemma fatfs_init_not_opened:
  assumes "w f = None"
  shows "fatfs_init g w st f =
     (if boot_sector_invalid (s_FAT12Infor st)
      then Inr (BAD_BOOT_SECTOR, st\<lparr>hal := (hal st)\<lparr>s_file_img := None\<rparr>\<rparr>)
      else Inr (GOOD_CONDITION,
        st\<lparr>hal := snd (kmc_update_sector_size ((hal st)\<lparr>s_file_img := None\<rparr>)
                   (bytes_per_sector (s_FAT12Infor st))),
           s_fat_table := malloc_bytes g
             (unat (fst (kmc_update_sector_size ((hal st)\<lparr>s_file_img := None\<rparr>)
                     (bytes_per_sector (s_FAT12Infor st))))
              * unat (sectors_per_FAT (s_FAT12Infor st)))\<rparr>))"
  using assms
  by (simp add: fatfs_init_def kmc_init_closed kmc_read_multi_sector_def
      kmc_update_sector_size_def Let_def split: prod.splits)

text \<open>The file is open and holds at least one sector of 512 bytes.\<close>

lemma hal_state_updates:
  "h\<lparr>s_file_img := a, s_sector_size := b, io_log := c\<rparr>
     = \<lparr>s_file_img = a, s_sector_size = b, io_log = c\<rparr>"
  by (cases h) simp

lemma fatfs_init_opened:
  assumes w: "w f = Some img" and len: "512 \<le> length img"
    and b: "read_boot_fields (take 512 img) = b"
  shows "fatfs_init g w st f =
     (if boot_sector_invalid b
      then Inr (BAD_BOOT_SECTOR,
        st\<lparr>hal := \<lparr>s_file_img = Some img, s_sector_size = 512,
                   io_log = io_log (hal st) @ [(0, 512)]\<rparr>,
           s_FAT12Infor := b\<rparr>)
      else
        (let ss = (if bytes_per_sector b = 0 then 512 else bytes_per_sector b);
             n = unat (sectors_per_FAT b) * unat ss;
             data = take n (drop (unat ss) img)
         in Inr (GOOD_CONDITION,
              st\<lparr>hal := \<lparr>s_file_img = Some img, s_sector_size = ss,
                         io_log = io_log (hal st) @ [(0, 512), (unat ss, n)]\<rparr>,
                 s_FAT12Infor := b,
                 s_fat_table := data @ drop (length data) (malloc_bytes g n)\<rparr>)))"
proof -
  have rd: "kmc_read_sector ((hal st)\<lparr>s_file_img := Some img, s_sector_size := 512\<rparr>)
              BOOT_SECTOR_BASE_ADDRESS (malloc_bytes g 512)
            = Inr (512, take 512 img,
                \<lparr>s_file_img = Some img, s_sector_size = 512,
                 io_log = io_log (hal st) @ [(0, 512)]\<rparr>)"
    using len
    by (simp add: kmc_read_sector_def BOOT_SECTOR_BASE_ADDRESS_def seek_read_full
        hal_state_updates)
  show ?thesis
  proof (cases "boot_sector_invalid b")
    case True
    then show ?thesis
      using w b by (simp add: fatfs_init_def kmc_init_open rd)
  next
    case False
    define ss where "ss = (if bytes_per_sector b = 0 then 512 else bytes_per_sector b)"
    define h2 where "h2 = \<lparr>s_file_img = Some img, s_sector_size = ss,
                 io_log = io_log (hal st) @ [(0, 512)]\<rparr>"
    from False have m: "bytes_per_sector b mod 512 = 0"
      by (simp add: boot_sector_invalid_def)
    have upd: "kmc_update_sector_size
                \<lparr>s_file_img = Some img, s_sector_size = 512,
                 io_log = io_log (hal st) @ [(0, 512)]\<rparr> (bytes_per_sector b)
              = (ucast ss, h2)"
      using m
      by (auto simp: kmc_update_sector_size_def KMC_DEFAULT_SECTOR_SIZE_def Let_def
          word_greater_zero_iff ss_def h2_def)
    have multi: "kmc_read_multi_sector h2 FAT_TABE_PHYSC_BASE_INDEX
             (ucast (sectors_per_FAT b)) (malloc_bytes g (unat ss * unat (sectors_per_FAT b)))
           = (let n = unat (sectors_per_FAT b) * unat ss;
                  data = take n (drop (unat ss) img)
              in Inr (length data, data @ drop (length data) (malloc_bytes g n),
                   \<lparr>s_file_img = Some img, s_sector_size = ss,
                    io_log = io_log (hal st) @ [(0, 512), (unat ss, n)]\<rparr>))"
      by (simp add: kmc_read_multi_sector_def FAT_TABE_PHYSC_BASE_INDEX_def h2_def
          seek_read_def Let_def unat_mult_16_32 unat_ucast_up mult.commute)
    show ?thesis
      using w b False
      by (simp add: fatfs_init_def kmc_init_open rd upd unat_ucast_up multi
          flip: ss_def)
         (simp add: Let_def)
  qed
qed

section \<open>Facts about the test images\<close>

lemma length_boot_sector [simp]: "length (boot_sector a b c d e f) = 512"
  by (simp add: boot_sector_def)

lemma length_hello_parts [simp]:
  "length hello_fat = 4608" "length hello_root = 7168" "length hello_data = 512"
  by (simp_all add: hello_fat_def hello_root_def hello_data_def hello_entry_def)

lemma floppy_image_boot:
  "length boot = 512 \<Longrightarrow> take 512 (floppy_image boot fat root data) = boot"
  by (simp add: floppy_image_def)

lemma floppy_image_fat:
  "length boot = 512 \<Longrightarrow> length fat = n \<Longrightarrow>
   take n (drop 512 (floppy_image boot fat root data)) = fat"
  by (simp add: floppy_image_def)

lemma length_floppy_image [simp]:
  "length (floppy_image boot fat root data)
     = length boot + 2 * length fat + length root + length data"
  by (simp add: floppy_image_def)

lemma read_boot_fields_boot_sector_0:
  "read_boot_fields (boot_sector 0 0 1 0xE0 0 9) = boot_info 0 1 224 9"
  by (simp add: read_boot_fields_def boot_info_def boot_sector_def hex_to_decimal_1
      hex_to_decimal_2 upt_0_8 nth_append)

lemma read_boot_fields_boot_sector_512:
  "read_boot_fields (boot_sector 0 2 1 0xE0 0 9) = boot_info 512 1 224 9"
  by (simp add: read_boot_fields_def boot_info_def boot_sector_def hex_to_decimal_1
      hex_to_decimal_2 upt_0_8 nth_append)

lemma hello_state_fields [simp]:
  "s_fat_table hello_state = hello_fat"
  "s_FAT12Infor hello_state = boot_info 512 1 224 9"
  "s_cluster_chain hello_state = []"
  "print_file_callback hello_state = True"
  "sink_calls hello_state = []"
  "hal hello_state = \<lparr>s_file_img = Some hello_image, s_sector_size = 512,
                       io_log = [(0, 512), (512, 4608)]\<rparr>"
  "list_count (s_dirlist hello_state) = 0"
  by (simp_all add: hello_state_def ResgisterPrint_file_func_def ready_state_def
      initial_state_def boot_info_def)

section \<open>Decoding a FAT entry\<close>

lemma and_15: "(x :: byte) AND 0x0F = take_bit 4 x"
  by (simp add: take_bit_eq_mask mask_eq_exp_minus_1)

lemma fat_even_or:
  "push_bit 8 (ucast ((hi :: byte) AND 0x0f)) + (ucast (lo :: byte) :: 16 word)
     = ucast lo OR push_bit 8 (ucast (hi AND 0x0F))"
proof -
  have "push_bit 8 (ucast (take_bit 4 hi)) AND (ucast lo :: 16 word) = 0"
    by (rule bit_eqI) (auto simp: bit_simps dest: bit_imp_le_length)
  then show ?thesis
    by (simp add: and_15 disjunctive_add_eq_or or.commute)
qed

lemma fat_odd_or:
  "(ucast (drop_bit 4 (lo :: byte)) :: 16 word) + push_bit 4 (ucast (hi :: byte))
     = ucast (drop_bit 4 lo) OR push_bit 4 (ucast hi)"
proof -
  have "(ucast (drop_bit 4 lo) :: 16 word) AND push_bit 4 (ucast hi) = 0"
    by (rule bit_eqI) (auto simp: bit_simps dest: bit_imp_le_length)
  then show ?thesis
    by (simp add: disjunctive_add_eq_or)
qed

lemma below_4096:
  assumes "take_bit 12 v = (v :: 16 word)"
  shows "v < 0x1000"
proof -
  have "v AND mask 12 < 2 ^ 12"
    by (rule and_mask_less_size) (simp add: word_size)
  then show ?thesis
    using assms by (simp add: take_bit_eq_mask)
qed

lemma fat_even_bound:
  "(ucast (lo :: byte) :: 16 word) OR push_bit 8 (ucast ((hi :: byte) AND 0x0F)) < 0x1000"
  unfolding and_15
  by (rule below_4096, rule bit_eqI) (auto simp: bit_simps dest: bit_imp_le_length)

lemma fat_odd_bound:
  "(ucast (drop_bit 4 (lo :: byte)) :: 16 word) OR push_bit 4 (ucast (hi :: byte)) < 0x1000"
  by (rule below_4096, rule bit_eqI) (auto simp: bit_simps dest: bit_imp_le_length)

lemma odd_word_and_1: "(c AND 1 \<noteq> 0) = odd (unat (c :: 16 word))"
  using and_mask_dvd_nat [of 1 c] by simp


lemma fat_even_bits:
  assumes "k < 12"
  shows "bit ((ucast (lo :: byte) :: 16 word) OR push_bit 8 (ucast ((hi :: byte) AND 0x0F))) k
           = bit (if k < 8 then lo else hi) (k mod 8)"
proof (cases "k < 8")
  case True
  then show ?thesis by (auto simp: and_15 bit_simps)
next
  case False
  with assms have "k mod 8 = k - 8" "k - 8 < 4"
    by (simp_all add: mod_if)
  with False assms show ?thesis
    by (auto simp: and_15 bit_simps dest: bit_imp_le_length)
qed

lemma fat_odd_bits:
  assumes "k < 12"
  shows "bit ((ucast (drop_bit 4 (lo :: byte)) :: 16 word) OR push_bit 4 (ucast (hi :: byte))) k
           = bit (if k < 4 then lo else hi) ((4 + k) mod 8)"
proof (cases "k < 4")
  case True
  then show ?thesis by (auto simp: bit_simps)
next
  case False
  with assms have "(4 + k) mod 8 = k - 4"
    by (simp add: mod_if)
  with False assms show ?thesis
    by (auto simp: bit_simps dest: bit_imp_le_length)
qed

lemma nibble_position_even:
  assumes "even c" "k < 12"
  shows "(12 * c + k) div 8 = 3 * c div 2 + (if k < 8 then 0 else 1)"
    and "(12 * c + k) mod 8 = k mod (8::nat)"
proof -
  from assms(1) obtain m where c: "c = 2 * m" by (rule evenE)
  have e: "12 * c + k = k + 3 * m * 8" by (simp add: c)
  have h: "3 * c div 2 = 3 * m" by (simp add: c)
  have d: "k div 8 = (if k < 8 then 0 else 1)"
    using assms(2) by (cases "k < 8") (simp_all add: div_if)
  show "(12 * c + k) div 8 = 3 * c div 2 + (if k < 8 then 0 else 1)"
    unfolding e h by (simp only: div_mult_self1 [of 8 k "3 * m"] d)
  show "(12 * c + k) mod 8 = k mod 8"
    unfolding e by (simp only: mod_mult_self1)
qed

lemma nibble_position_odd:
  assumes "odd c" "k < 12"
  shows "(12 * c + k) div 8 = 3 * c div 2 + (if k < 4 then 0 else 1)"
    and "(12 * c + k) mod 8 = (4 + k) mod (8::nat)"
proof -
  from assms(1) obtain m where c: "c = 2 * m + 1" by (rule oddE)
  have e: "12 * c + k = (4 + k) + (3 * m + 1) * 8" by (simp add: c)
  have h: "3 * c div 2 = 3 * m + 1" by (simp add: c)
  have d: "(4 + k) div 8 = (if k < 4 then 0 else 1)"
    using assms(2) by (cases "k < 4") (simp_all add: div_if)
  show "(12 * c + k) div 8 = 3 * c div 2 + (if k < 4 then 0 else 1)"
    unfolding e h by (simp only: div_mult_self1 [of 8 "4 + k" "3 * m + 1"] d)
  show "(12 * c + k) mod 8 = (4 + k) mod 8"
    unfolding e by (simp only: mod_mult_self1)
qed

section \<open>The chain walk\<close>

lemma read_FAT_entry_cong:
  "s_fat_table st' = s_fat_table st \<Longrightarrow> read_FAT_entry st' c = read_FAT_entry st c"
  by (simp add: read_FAT_entry_def Let_def)

lemma fat_follow_cong:
  "s_fat_table st' = s_fat_table st \<Longrightarrow> fat_follow st' n c = fat_follow st n c"
  by (induction n arbitrary: c)
     (auto simp: read_FAT_entry_cong [of st' st] split: sum.splits)

lemma fat_path_cong:
  "s_fat_table st' = s_fat_table st \<Longrightarrow> fat_path st' n c = fat_path st n c"
  by (induction n arbitrary: c)
     (auto simp: read_FAT_entry_cong [of st' st] split: sum.splits)

lemma chain_linked_cong:
  "s_fat_table st' = s_fat_table st \<Longrightarrow> chain_linked st' cs = chain_linked st cs"
  by (induction st cs rule: chain_linked.induct)
     (simp_all add: read_FAT_entry_cong [of st'])

lemma walk_stops_cong:
  "s_fat_table st' = s_fat_table st \<Longrightarrow> walk_stops st' v = walk_stops st v"
  by (simp add: walk_stops_def read_FAT_entry_cong [of st' st])

lemma s_fat_table_add_node [simp]:
  "s_fat_table (fatfs_add_node st c) = s_fat_table st"
  by (simp add: fatfs_add_node_def)

lemma fat_follow_add:
  "fat_follow st (a + b) c =
     (case fat_follow st a c of None \<Rightarrow> None | Some v \<Rightarrow> fat_follow st b v)"
  by (induction a arbitrary: c) (auto split: sum.splits)

lemma fat_follow_terminal:
  "0xFF8 \<le> c \<Longrightarrow> fat_follow st n c = Some t \<Longrightarrow> n = 0"
  by (cases n) (simp_all add: not_less [symmetric])

lemma walk_stops_no_step:
  "walk_stops st v \<Longrightarrow> fat_follow st (Suc n) v = None"
  by (auto simp: walk_stops_def not_less [symmetric] isl_def)

text \<open>The number of look-ups to a point where the walk stops is determined.\<close>

lemma fat_follow_steps_unique:
  assumes "fat_follow st a c = Some v" "walk_stops st v"
    and "fat_follow st b c = Some v'" "walk_stops st v'"
  shows "a = b"
  using assms
proof (induction a arbitrary: b c)
  case 0
  then show ?case
    using walk_stops_no_step [of st c] by (cases b) simp_all
next
  case (Suc a)
  from Suc.prems(1) have c: "c < 0xFF8"
    by (simp split: if_splits)
  from Suc.prems(1) c obtain w where w: "read_FAT_entry st c = Inr w"
    "fat_follow st a w = Some v"
    by (auto split: sum.splits)
  have "\<not> walk_stops st c"
    using c w(1) by (simp add: walk_stops_def not_le)
  with Suc.prems(3,4) obtain b' where b: "b = Suc b'"
    by (cases b) auto
  with Suc.prems(3) c w(1) have "fat_follow st b' w = Some v'"
    by simp
  with Suc.IH [OF w(2) Suc.prems(2) _ Suc.prems(4)] b show ?case
    by simp
qed

lemma length_fat_path:
  "fat_follow st n c = Some t \<Longrightarrow> length (fat_path st n c) = n"
  by (induction n arbitrary: c) (auto split: if_splits sum.splits)

lemma chain_linked_fat_path:
  "fat_follow st n c = Some t \<Longrightarrow> chain_linked st (c # fat_path st n c)"
  by (induction n arbitrary: c) (auto split: if_splits sum.splits)

lemma last_fat_path:
  "fat_follow st n c = Some t \<Longrightarrow> last (c # fat_path st n c) = t"
proof (induction n arbitrary: c)
  case 0
  then show ?case by simp
next
  case (Suc n)
  then obtain v where v: "read_FAT_entry st c = Inr v" "fat_follow st n v = Some t"
    by (auto split: if_splits sum.splits)
  have "last (c # fat_path st (Suc n) c) = last (v # fat_path st n v)"
    using v(1) by simp
  with Suc.IH [OF v(2)] show ?case
    by simp
qed

text \<open>When the FAT leads from \<open>c\<close> to a terminal value in \<open>n\<close> look-ups, the loop
  returns after appending the \<open>n\<close> numbers found.\<close>

lemma chain_loop_returns:
  assumes "fat_follow st n c = Some t" "0xFF8 \<le> t"
  shows "chain_loop st c len
           = Some (Inr (len + of_nat n,
                st\<lparr>s_cluster_chain := s_cluster_chain st @ fat_path st n c\<rparr>))"
  using assms
proof (induction n arbitrary: st c len)
  case 0
  then show ?case
    by (subst chain_loop.simps) (simp add: not_less [symmetric])
next
  case (Suc n)
  from Suc.prems(1) have c: "c < 0xFF8"
    by (simp split: if_splits)
  with Suc.prems(1) obtain v where v: "read_FAT_entry st c = Inr v"
    "fat_follow st n v = Some t"
    by (auto split: sum.splits)
  let ?st = "fatfs_add_node st v"
  have "fat_follow ?st n v = Some t"
    using v(2) by (simp add: fat_follow_cong [of ?st st])
  from Suc.IH [OF this Suc.prems(2), of "len + 1"]
  have "chain_loop ?st v (len + 1)
          = Some (Inr (len + 1 + of_nat n,
               ?st\<lparr>s_cluster_chain := s_cluster_chain ?st @ fat_path st n v\<rparr>))"
    by (simp add: fat_path_cong [of ?st st])
  moreover have "chain_loop st c len = chain_loop ?st v (len + 1)"
    using c v(1) by (subst chain_loop.simps) simp
  ultimately show ?case
    using v(1) by (simp add: fatfs_add_node_def add.commute add.left_commute)
qed

text \<open>When it leads to a number whose entry is outside the buffer, the loop ends in
  the fault: the program has undefined behaviour there.\<close>

lemma chain_loop_faults:
  assumes "fat_follow st n c = Some v" "v < 0xFF8" "read_FAT_entry st v = Inl e"
  shows "chain_loop st c len = Some (Inl e)"
  using assms
proof (induction n arbitrary: st c len)
  case 0
  then show ?case by (subst chain_loop.simps) simp
next
  case (Suc n)
  from Suc.prems(1) have c: "c < 0xFF8"
    by (simp split: if_splits)
  with Suc.prems(1) obtain w where w: "read_FAT_entry st c = Inr w"
    "fat_follow st n w = Some v"
    by (auto split: sum.splits)
  let ?st = "fatfs_add_node st w"
  have "chain_loop ?st w (len + 1) = Some (Inl e)"
    using w(2) Suc.prems(2,3)
    by (intro Suc.IH) (simp_all add: fat_follow_cong [of ?st st] read_FAT_entry_cong [of ?st st])
  then show ?case
    using c w(1) by (subst chain_loop.simps) simp
qed

text \<open>Conversely, a loop that returns has reached a point where the walk stops.\<close>

lemma chain_loop_stops:
  assumes "chain_loop st c len = Some r"
  shows "\<exists>n v. fat_follow st n c = Some v \<and> walk_stops st v"
proof (rule chain_loop.raw_induct
    [where P = "\<lambda>st c len r. \<exists>n v. fat_follow st n c = Some v \<and> walk_stops st v",
      OF _ assms])
  fix loop st c and len :: "32 word" and r :: "fault + 32 word \<times> fatfs_state"
  assume IH: "\<And>st c len r. loop st c len = Some r
                \<Longrightarrow> \<exists>n v. fat_follow st n c = Some v \<and> walk_stops st v"
    and body: "(if c < 0xFF8 then
                  (case read_FAT_entry st c of
                     Inl e \<Rightarrow> Some (Inl e)
                   | Inr nxt \<Rightarrow> loop (fatfs_add_node st nxt) nxt (len + 1))
                else Some (Inr (len, st))) = Some r"
  show "\<exists>n v. fat_follow st n c = Some v \<and> walk_stops st v"
  proof (cases "c < 0xFF8 \<and> \<not> isl (read_FAT_entry st c)")
    case False
    then have "fat_follow st 0 c = Some c \<and> walk_stops st c"
      by (auto simp: walk_stops_def not_less)
    then show ?thesis by blast
  next
    case True
    then obtain w where w: "read_FAT_entry st c = Inr w"
      by (cases "read_FAT_entry st c") auto
    with True body have "loop (fatfs_add_node st w) w (len + 1) = Some r"
      by simp
    from IH [OF this] obtain n v where
      "fat_follow (fatfs_add_node st w) n w = Some v" "walk_stops (fatfs_add_node st w) v"
      by blast
    then have "fat_follow st (Suc n) c = Some v \<and> walk_stops st v"
      using True w
      by (simp add: fat_follow_cong [of "fatfs_add_node st w" st]
          walk_stops_cong [of "fatfs_add_node st w" st])
    then show ?thesis by blast
  qed
qed

text \<open>A walk that enters a cycle never reaches a point where it stops.\<close>

lemma cycle_never_stops:
  assumes m: "fat_follow st m f = Some c" and k: "0 < k" "fat_follow st k c = Some c"
    and n: "fat_follow st n f = Some v"
  shows "\<not> walk_stops st v"
proof
  assume stop: "walk_stops st v"
  show False
  proof (cases "m \<le> n")
    case True
    then have "fat_follow st (m + (n - m)) f = Some v"
      using n by simp
    then have a: "fat_follow st (n - m) c = Some v"
      using m by (simp only: fat_follow_add) simp
    then have "fat_follow st (k + (n - m)) c = Some v"
      using k(2) by (simp only: fat_follow_add) simp
    from fat_follow_steps_unique [OF a stop this stop] k(1) show False
      by simp
  next
    case False
    then obtain d where d: "m = n + Suc d"
      by (metis add_Suc_right less_imp_Suc_add not_le)
    have "fat_follow st (n + Suc d) f = fat_follow st (Suc d) v"
      using n by (simp only: fat_follow_add option.case)
    also have "\<dots> = None"
      by (rule walk_stops_no_step [OF stop])
    finally show False
      using m d by simp
  qed
qed

text \<open>
  A walk that reaches a terminal value does so in at most 4088 look-ups: the numbers
  it visits before are below \<open>0xFF8\<close> and differ from each other.
\<close>

lemma card_below_terminal: "card {v :: 16 word. v < 0xFF8} \<le> 4088"
proof -
  have "{v :: 16 word. v < 0xFF8} \<subseteq> of_nat ` {..<4088}"
  proof
    fix v :: "16 word"
    assume "v \<in> {v. v < 0xFF8}"
    then have "unat v < 4088"
      by (simp add: word_less_nat_alt)
    then have "of_nat (unat v) \<in> (of_nat ` {..<4088} :: 16 word set)"
      by blast
    then show "v \<in> of_nat ` {..<4088}"
      by simp
  qed
  then have "card {v :: 16 word. v < 0xFF8} \<le> card (of_nat ` {..<4088} :: 16 word set)"
    by (intro card_mono) simp_all
  also have "\<dots> \<le> card {..<4088::nat}"
    by (rule card_image_le) simp
  finally show ?thesis by simp
qed

lemma fat_follow_prefix:
  assumes "fat_follow st k f = Some t" "i \<le> k"
  shows "\<exists>v. fat_follow st i f = Some v \<and> fat_follow st (k - i) v = Some t"
proof -
  from assms have "fat_follow st (i + (k - i)) f = Some t"
    by simp
  then have "(case fat_follow st i f of None \<Rightarrow> None
              | Some v \<Rightarrow> fat_follow st (k - i) v) = Some t"
    by (simp only: fat_follow_add)
  then show ?thesis
    by (cases "fat_follow st i f") simp_all
qed

lemma fat_follow_length_bound:
  assumes t: "fat_follow st k f = Some t" "0xFF8 \<le> t"
  shows "k \<le> 4088"
proof -
  have stop: "walk_stops st t"
    using t(2) by (simp add: walk_stops_def)
  define g where "g i = the (fat_follow st i f)" for i
  have g: "fat_follow st i f = Some (g i) \<and> fat_follow st (k - i) (g i) = Some t"
    if "i \<le> k" for i
    using fat_follow_prefix [OF t(1) that] by (auto simp: g_def)
  have "inj_on g {..<k}"
  proof (rule inj_onI)
    fix i j
    assume ij: "i \<in> {..<k}" "j \<in> {..<k}" "g i = g j"
    then have "fat_follow st (k - i) (g i) = Some t" "fat_follow st (k - j) (g i) = Some t"
      using g [of i] g [of j] by simp_all
    from fat_follow_steps_unique [OF this(1) stop this(2) stop] ij show "i = j"
      by simp
  qed
  moreover have "g ` {..<k} \<subseteq> {v. v < 0xFF8}"
  proof
    fix v
    assume "v \<in> g ` {..<k}"
    then obtain i where i: "i < k" "v = g i"
      by auto
    then obtain d where "k - i = Suc d"
      by (metis Suc_diff_Suc)
    with g [of i] i show "v \<in> {v. v < 0xFF8}"
      by (auto split: if_splits)
  qed
  ultimately have "card {..<k} \<le> card {v :: 16 word. v < 0xFF8}"
    by (metis card_image card_mono finite_code)
  with card_below_terminal show ?thesis
    by simp
qed

subsection \<open>fatfs\_get\_cluster\_chain\<close>

lemma fatfs_get_cluster_chain_returns:
  assumes "fat_follow st n f = Some t" "0xFF8 \<le> t"
  shows "fatfs_get_cluster_chain st f
           = Some (Inr (of_nat n,
                st\<lparr>s_cluster_chain := s_cluster_chain st @ f # fat_path st n f\<rparr>))"
proof -
  let ?st = "fatfs_add_node st f"
  have "fat_follow ?st n f = Some t"
    using assms(1) by (simp add: fat_follow_cong [of ?st st])
  from chain_loop_returns [OF this assms(2), of 1] show ?thesis
    by (simp add: fatfs_get_cluster_chain_def fat_path_cong [of ?st st])
       (simp add: fatfs_add_node_def)
qed

lemma fatfs_get_cluster_chain_faults:
  assumes "fat_follow st n f = Some v" "v < 0xFF8" "read_FAT_entry st v = Inl e"
  shows "fatfs_get_cluster_chain st f = Some (Inl e)"
proof -
  let ?st = "fatfs_add_node st f"
  have "chain_loop ?st f 1 = Some (Inl e)"
    using assms
    by (intro chain_loop_faults [of ?st n f v])
       (simp_all add: fat_follow_cong [of ?st st] read_FAT_entry_cong [of ?st st])
  then show ?thesis
    by (simp add: fatfs_get_cluster_chain_def)
qed

lemma fatfs_get_cluster_chain_stops:
  assumes "fatfs_get_cluster_chain st f = Some r"
  shows "\<exists>n v. fat_follow st n f = Some v \<and> walk_stops st v"
proof -
  let ?st = "fatfs_add_node st f"
  from assms obtain r' where "chain_loop ?st f 1 = Some r'"
    by (auto simp: fatfs_get_cluster_chain_def split: option.splits)
  from chain_loop_stops [OF this] show ?thesis
    by (simp add: fat_follow_cong [of ?st st] walk_stops_cong [of ?st st])
qed

text \<open>The complete description of a walk that returns a chain.\<close>

lemma fatfs_get_cluster_chain_result:
  assumes "fatfs_get_cluster_chain st f = Some (Inr (n, st'))"
  shows "\<exists>k t. fat_follow st k f = Some t \<and> 0xFF8 \<le> t \<and> k \<le> 4088 \<and> unat n = k
          \<and> st' = st\<lparr>s_cluster_chain := s_cluster_chain st @ f # fat_path st k f\<rparr>"
proof -
  from fatfs_get_cluster_chain_stops [OF assms] obtain k v where
    kv: "fat_follow st k f = Some v" "walk_stops st v"
    by blast
  have t: "0xFF8 \<le> v"
  proof (rule ccontr)
    assume "\<not> 0xFF8 \<le> v"
    with kv(2) obtain e where "v < 0xFF8" "read_FAT_entry st v = Inl e"
      by (auto simp: walk_stops_def isl_def)
    from fatfs_get_cluster_chain_faults [OF kv(1) this] assms show False
      by simp
  qed
  have k: "k \<le> 4088"
    by (rule fat_follow_length_bound [OF kv(1) t])
  then have "unat (of_nat k :: 32 word) = k"
    by (simp add: unat_of_nat)
  with fatfs_get_cluster_chain_returns [OF kv(1) t] assms t k kv(1) show ?thesis
    by auto
qed

lemma fatfs_get_cluster_chain_cycle:
  assumes "fat_follow st m f = Some c" "0 < k" "fat_follow st k c = Some c"
  shows "fatfs_get_cluster_chain st f = None"
proof (rule ccontr)
  assume "fatfs_get_cluster_chain st f \<noteq> None"
  then obtain r where "fatfs_get_cluster_chain st f = Some r"
    by auto
  from fatfs_get_cluster_chain_stops [OF this] obtain n v where
    "fat_follow st n f = Some v" "walk_stops st v"
    by blast
  with cycle_never_stops [OF assms this(1)] show False
    by simp
qed

lemma chain_linked_nth:
  assumes "chain_linked st cs" "Suc i < length cs"
  shows "cs ! i < 0xFF8 \<and> read_FAT_entry st (cs ! i) = Inr (cs ! Suc i)"
  using assms
proof (induction st cs arbitrary: i rule: chain_linked.induct)
  case (3 st c c' cs)
  then show ?case by (cases i) simp_all
qed simp_all

section \<open>Reading sectors of a cluster chain\<close>

text \<open>The content of sector \<open>s\<close> of an image for sector size \<open>ss\<close>.\<close>

lemma cluster_sector_position:
  assumes "c < 0xFF8"
  shows "unat ((ucast (c :: 16 word) + FAT12_CLUSTER_OFFSET_FACTOR) * ucast (ss :: 16 word) :: 32 word)
           = (unat c + 31) * unat ss"
proof -
  have c: "unat c < 4088"
    using assms by (simp add: word_less_nat_alt)
  have ss: "unat ss < 65536"
    using unsigned_less [of ss, where ?'a = nat] by simp
  have s: "unat (ucast c + 31 :: 32 word) = unat c + 31"
    using c by (simp add: unat_add_lem [THEN iffD1] unat_ucast_up)
  have "(unat c + 31) * unat ss < 4119 * 65536"
    using c ss by (intro mult_strict_mono) simp_all
  then have "unat (ucast c + 31 :: 32 word) * unat (ucast ss :: 32 word) < 2 ^ LENGTH(32)"
    by (simp add: s unat_ucast_up)
  then show ?thesis
    by (simp add: unat_mult_lem [THEN iffD1] s unat_ucast_up FAT12_CLUSTER_OFFSET_FACTOR_def)
qed

lemma kmc_read_sector_cluster:
  assumes "s_file_img h = Some img" "(c :: 16 word) < 0xFF8" "length buff = unat (s_sector_size h)"
    and "(unat c + 32) * unat (s_sector_size h) \<le> length img"
  shows "kmc_read_sector h (ucast c + FAT12_CLUSTER_OFFSET_FACTOR) buff
           = Inr (unat (s_sector_size h),
                  take (unat (s_sector_size h))
                    (drop ((unat c + 31) * unat (s_sector_size h)) img),
                  h\<lparr>io_log := io_log h
                       @ [((unat c + 31) * unat (s_sector_size h), unat (s_sector_size h))]\<rparr>)"
proof -
  have "(unat c + 31) * unat (s_sector_size h) + unat (s_sector_size h) \<le> length img"
    using assms(4) by (simp add: algebra_simps)
  then show ?thesis
    using assms(1,3)
    by (simp add: kmc_read_sector_def cluster_sector_position [OF assms(2)] seek_read_full)
qed


text \<open>
  The loop of \<^verbatim>\<open>fatfs_read_file\<close> over a list of clusters \<open>cs\<close> followed by one
  more node: every cluster of \<open>cs\<close> is below \<open>0xFF8\<close> and its sector lies inside
  the image.
\<close>

lemma read_file_loop_clusters:
  assumes "s_file_img (hal st) = Some img" "print_file_callback st"
    and "length fc = unat (s_sector_size (hal st))"
    and "\<forall>c \<in> set cs. c < 0xFF8 \<and> (unat c + 32) * unat (s_sector_size (hal st)) \<le> length img"
  shows "read_file_loop st (cs @ [t]) fc
           = Inr (if cs = [] then fc
                  else take (unat (s_sector_size (hal st)))
                         (drop ((unat (last cs) + 31) * unat (s_sector_size (hal st))) img),
                  st\<lparr>hal := (hal st)\<lparr>io_log := io_log (hal st)
                           @ map (\<lambda>c. ((unat c + 31) * unat (s_sector_size (hal st)),
                                       unat (s_sector_size (hal st)))) cs\<rparr>,
                     sink_calls := sink_calls st
                       @ map (\<lambda>c. (take (unat (s_sector_size (hal st)))
                                      (drop ((unat c + 31) * unat (s_sector_size (hal st))) img),
                                    ucast (bytes_per_sector (s_FAT12Infor st)))) cs\<rparr>)"
  using assms
proof (induction cs arbitrary: st fc)
  case Nil
  then show ?case by simp
next
  case (Cons c cs)
  define ss where "ss = s_sector_size (hal st)"
  define sec where "sec = take (unat ss) (drop ((unat c + 31) * unat ss) img)"
  define st1 where "st1 = st\<lparr>hal := (hal st)\<lparr>io_log := io_log (hal st)
                               @ [((unat c + 31) * unat ss, unat ss)]\<rparr>,
                            sink_calls := sink_calls st
                               @ [(sec, ucast (bytes_per_sector (s_FAT12Infor st)))]\<rparr>"
  from Cons.prems(4) have c: "c < 0xFF8" "(unat c + 32) * unat ss \<le> length img"
    by (simp_all add: ss_def)
  have rd: "kmc_read_sector (hal st) (ucast c + FAT12_CLUSTER_OFFSET_FACTOR) fc
              = Inr (unat ss, sec,
                     (hal st)\<lparr>io_log := io_log (hal st) @ [((unat c + 31) * unat ss, unat ss)]\<rparr>)"
    using kmc_read_sector_cluster [OF Cons.prems(1) c(1) Cons.prems(3)] c(2)
    by (simp add: ss_def sec_def)
  obtain d ds where ds: "cs @ [t] = d # ds"
    by (cases cs) simp_all
  have step: "read_file_loop st (c # cs @ [t]) fc = read_file_loop st1 (cs @ [t]) sec"
    using rd Cons.prems(2) by (simp add: ds st1_def)
  have "(unat c + 31) * unat ss + unat ss \<le> length img"
    using c(2) by (simp add: algebra_simps)
  then have len: "length sec = unat ss"
    by (simp add: sec_def)
  have "read_file_loop st1 (cs @ [t]) sec
           = Inr (if cs = [] then sec
                  else take (unat (s_sector_size (hal st1)))
                         (drop ((unat (last cs) + 31) * unat (s_sector_size (hal st1))) img),
                  st1\<lparr>hal := (hal st1)\<lparr>io_log := io_log (hal st1)
                           @ map (\<lambda>c. ((unat c + 31) * unat (s_sector_size (hal st1)),
                                       unat (s_sector_size (hal st1)))) cs\<rparr>,
                     sink_calls := sink_calls st1
                       @ map (\<lambda>c. (take (unat (s_sector_size (hal st1)))
                                      (drop ((unat c + 31) * unat (s_sector_size (hal st1))) img),
                                    ucast (bytes_per_sector (s_FAT12Infor st1)))) cs\<rparr>)"
    using Cons.prems len
    by (intro Cons.IH) (simp_all add: st1_def ss_def)
  then show ?case
    using step by (simp add: st1_def ss_def sec_def)
qed

lemma chain_linked_butlast:
  "chain_linked st cs \<Longrightarrow> \<forall>c \<in> set (butlast cs). c < 0xFF8"
  by (induction st cs rule: chain_linked.induct) simp_all

lemma fatfs_read_file_clusters:
  assumes img: "s_file_img (hal st) = Some img"
    and ss: "s_sector_size (hal st) = bytes_per_sector (s_FAT12Infor st)"
    and cb: "print_file_callback st" and empty: "s_cluster_chain st = []"
    and chain: "fat_follow st k f = Some t" "0xFF8 \<le> t"
    and cover: "\<forall>c \<in> set (butlast (f # fat_path st k f)).
                  (unat c + 32) * unat (bytes_per_sector (s_FAT12Infor st)) \<le> length img"
  shows "fatfs_read_file g st f
           = Some (Inr (st\<lparr>hal := (hal st)\<lparr>io_log := io_log (hal st)
                   @ map (\<lambda>c. ((unat c + 31) * unat (bytes_per_sector (s_FAT12Infor st)),
                               unat (bytes_per_sector (s_FAT12Infor st))))
                       (butlast (f # fat_path st k f))\<rparr>,
                 sink_calls := sink_calls st
                   @ map (\<lambda>c. (take (unat (bytes_per_sector (s_FAT12Infor st)))
                                  (drop ((unat c + 31) * unat (bytes_per_sector (s_FAT12Infor st))) img),
                                ucast (bytes_per_sector (s_FAT12Infor st))))
                       (butlast (f # fat_path st k f))\<rparr>))"
proof -
  define cs where "cs = butlast (f # fat_path st k f)"
  define st1 where "st1 = st\<lparr>s_cluster_chain := f # fat_path st k f\<rparr>"
  have walk: "fatfs_get_cluster_chain st f = Some (Inr (of_nat k, st1))"
    using fatfs_get_cluster_chain_returns [OF chain] empty by (simp add: st1_def)
  have "last (f # fat_path st k f) = t"
    by (rule last_fat_path [OF chain(1)])
  then have split: "f # fat_path st k f = cs @ [t]"
    unfolding cs_def by (metis append_butlast_last_id list.distinct(1))
  have below: "\<forall>c \<in> set cs. c < 0xFF8"
    unfolding cs_def by (rule chain_linked_butlast [OF chain_linked_fat_path [OF chain(1)]])
  have loop: "read_file_loop st1 (cs @ [t])
                (malloc_bytes g (unat (bytes_per_sector (s_FAT12Infor st1))))
           = Inr (if cs = [] then malloc_bytes g (unat (bytes_per_sector (s_FAT12Infor st1)))
                  else take (unat (s_sector_size (hal st1)))
                         (drop ((unat (last cs) + 31) * unat (s_sector_size (hal st1))) img),
                  st1\<lparr>hal := (hal st1)\<lparr>io_log := io_log (hal st1)
                           @ map (\<lambda>c. ((unat c + 31) * unat (s_sector_size (hal st1)),
                                       unat (s_sector_size (hal st1)))) cs\<rparr>,
                     sink_calls := sink_calls st1
                       @ map (\<lambda>c. (take (unat (s_sector_size (hal st1)))
                                      (drop ((unat c + 31) * unat (s_sector_size (hal st1))) img),
                                    ucast (bytes_per_sector (s_FAT12Infor st1)))) cs\<rparr>)"
    using img ss cb below cover
    by (intro read_file_loop_clusters) (simp_all add: st1_def cs_def)
  have fields: "hal st1 = hal st" "s_FAT12Infor st1 = s_FAT12Infor st"
    "sink_calls st1 = sink_calls st" "s_cluster_chain st1 = cs @ [t]"
    by (simp_all add: st1_def split)
  have clear: "fatfs_clear_cluster_chain (st1\<lparr>hal := h, sink_calls := sc\<rparr>)
                 = st\<lparr>hal := h, sink_calls := sc\<rparr>" for h sc
    using empty by (simp add: fatfs_clear_cluster_chain_def st1_def)
  have "fatfs_read_file g st f
          = (case read_file_loop st1 (cs @ [t])
                    (malloc_bytes g (unat (bytes_per_sector (s_FAT12Infor st1)))) of
               Inl e \<Rightarrow> Some (Inl e)
             | Inr (file_content, st2) \<Rightarrow> Some (Inr (fatfs_clear_cluster_chain st2)))"
    by (simp add: fatfs_read_file_def walk Let_def fields(4))
  also have "\<dots> = Some (Inr (st\<lparr>hal := (hal st)\<lparr>io_log := io_log (hal st)
                   @ map (\<lambda>c. ((unat c + 31) * unat (bytes_per_sector (s_FAT12Infor st)),
                               unat (bytes_per_sector (s_FAT12Infor st)))) cs\<rparr>,
                 sink_calls := sink_calls st
                   @ map (\<lambda>c. (take (unat (bytes_per_sector (s_FAT12Infor st)))
                                  (drop ((unat c + 31) * unat (bytes_per_sector (s_FAT12Infor st))) img),
                                ucast (bytes_per_sector (s_FAT12Infor st)))) cs\<rparr>))"
    unfolding loop by (simp add: clear fields ss)
  finally show ?thesis
    unfolding cs_def .
qed

section \<open>More facts about the test images\<close>

lemma floppy_image_data:
  assumes "length boot = 512" "length fat = 4608" "length root = 7168"
  shows "drop 16896 (floppy_image boot fat root data) = data"
  using assms by (simp add: floppy_image_def)

lemma floppy_image_root:
  assumes "length boot = 512" "length fat = 4608" "length root = 7168"
  shows "take 7168 (drop 9728 (floppy_image boot fat root data)) = root"
  using assms by (simp add: floppy_image_def)

lemma read_boot_fields_boot_sector_spc2:
  "read_boot_fields (boot_sector 0 2 2 0xE0 0 9) = boot_info 512 2 224 9"
  by (simp add: read_boot_fields_def boot_info_def boot_sector_def hex_to_decimal_1
      hex_to_decimal_2 upt_0_8 nth_append)

text \<open>\<^verbatim>\<open>fatfs_init\<close> on an image of the stock layout whose boot sector gives
  \<open>bytes_per_sector\<close> as 512 or as 0: the device keeps the sector size 512.\<close>

lemma fatfs_init_floppy_image:
  assumes b: "read_boot_fields boot = boot_info bps spc 224 9" "bps = 512 \<or> bps = 0"
    and len: "length boot = 512" "length fat = 4608"
  shows "fatfs_init g (one_file (floppy_image boot fat root data)) initial_state ''floppy.img''
     = Inr (GOOD_CONDITION,
         ready_state (floppy_image boot fat root data) (boot_info bps spc 224 9) 512 fat)"
proof -
  let ?img = "floppy_image boot fat root data"
  have w: "one_file ?img ''floppy.img'' = Some ?img"
    by (simp add: one_file_def)
  have l: "512 \<le> length ?img"
    using len by simp
  have r: "read_boot_fields (take 512 ?img) = boot_info bps spc 224 9"
    using len b(1) by (simp add: floppy_image_boot)
  have inv: "\<not> boot_sector_invalid (boot_info bps spc 224 9)"
    using b(2) by (auto simp: boot_sector_invalid_def boot_info_def)
  have ss: "(if bytes_per_sector (boot_info bps spc 224 9) = 0 then 512
             else bytes_per_sector (boot_info bps spc 224 9)) = 512"
    using b(2) by (auto simp: boot_info_def)
  have spf: "sectors_per_FAT (boot_info bps spc 224 9) = 9"
    by (simp add: boot_info_def)
  show ?thesis
    unfolding fatfs_init_opened
        [of "one_file ?img" "''floppy.img''" ?img "boot_info bps spc 224 9", OF w l r]
    using inv len
    by (simp add: ss spf floppy_image_fat ready_state_def initial_state_def)
qed

lemma fatfs_init_test_images:
  "fatfs_init g (one_file hello_image) initial_state ''floppy.img''
     = Inr (GOOD_CONDITION, ready_state hello_image (boot_info 512 1 224 9) 512 hello_fat)"
  "fatfs_init g (one_file cycle_image) initial_state ''floppy.img''
     = Inr (GOOD_CONDITION, ready_state cycle_image (boot_info 512 1 224 9) 512 cycle_fat)"
  "fatfs_init g (one_file spc2_image) initial_state ''floppy.img''
     = Inr (GOOD_CONDITION, ready_state spc2_image (boot_info 512 2 224 9) 512 hello_fat)"
  unfolding hello_image_def cycle_image_def spc2_image_def
  by (rule fatfs_init_floppy_image;
      simp add: read_boot_fields_boot_sector_512 read_boot_fields_boot_sector_spc2
        cycle_fat_def)+

lemma spc2_state_fields [simp]:
  "s_fat_table spc2_state = hello_fat"
  "s_FAT12Infor spc2_state = boot_info 512 2 224 9"
  "s_cluster_chain spc2_state = []"
  "print_file_callback spc2_state = True"
  "sink_calls spc2_state = []"
  "hal spc2_state = \<lparr>s_file_img = Some spc2_image, s_sector_size = 512,
                      io_log = [(0, 512), (512, 4608)]\<rparr>"
  "list_count (s_dirlist spc2_state) = 0"
  by (simp_all add: spc2_state_def ResgisterPrint_file_func_def ready_state_def
      initial_state_def boot_info_def)

lemma boot_info_fields [simp]:
  "bytes_per_sector (boot_info bps spc root spf) = bps"
  "sectors_per_cluster (boot_info bps spc root spf) = spc"
  "reserved_sectors_quantity (boot_info bps spc root spf) = 1"
  "num_of_FATs (boot_info bps spc root spf) = 2"
  "max_root_dir_entries (boot_info bps spc root spf) = root"
  "sectors_per_FAT (boot_info bps spc root spf) = spf"
  by (simp_all add: boot_info_def)

lemma read_FAT_entry_spc2: "read_FAT_entry spc2_state 2 = Inr 0xFFF"
  by (simp add: read_FAT_entry_def hello_fat_def)

lemma sector_33_hello: "take 512 (drop 16896 hello_image) = hello_data"
  by (simp add: hello_image_def floppy_image_data)

lemma sector_33_spc2: "take 512 (drop 16896 spc2_image) = hello_data"
  by (simp add: spc2_image_def floppy_image_data)

lemma length_test_images [simp]:
  "length hello_image = 17408" "length spc2_image = 17920" "length cycle_image = 17408"
  by (simp_all add: hello_image_def spc2_image_def cycle_image_def cycle_fat_def)

section \<open>The scan and the fill loop of fatfs\_read\_dir\<close>

lemma listed_from_end:
  "\<not> i < length buffer \<Longrightarrow> listed_from buffer i = []"
  by (subst listed_from.simps) simp

lemma listed_from_skip:
  "i < length buffer \<Longrightarrow> \<not> entry_listed buffer i \<Longrightarrow>
   listed_from buffer i = listed_from buffer (i + 32)"
  by (subst listed_from.simps) simp

lemma listed_from_take:
  "i < length buffer \<Longrightarrow> entry_listed buffer i \<Longrightarrow>
   listed_from buffer i = i # listed_from buffer (i + 32)"
  by (subst listed_from.simps) simp


lemma slot_in_buffer:
  assumes "32 dvd n" "32 dvd i" "i < (n :: nat)"
  shows "i + 32 \<le> n"
proof -
  from assms(1,2) obtain a b where ab: "n = 32 * a" "i = 32 * b"
    by (auto elim!: dvdE)
  with assms(3) have "b < a" by simp
  then have "Suc b \<le> a" by simp
  then have "32 * Suc b \<le> 32 * a" by (rule mult_le_mono2)
  with ab show ?thesis by simp
qed

lemma scan_loop_returns:
  assumes "32 dvd length buffer" "32 dvd i"
    and "length entries_index + length (listed_from buffer i) \<le> cap"
  shows "scan_loop buffer cap i entries_index cnt
           = Inr (entries_index @ map of_nat (listed_from buffer i),
                  cnt + of_nat (length (listed_from buffer i)))"
  using assms
proof (induction buffer cap i entries_index cnt rule: scan_loop.induct)
  case (1 buffer cap i entries_index cnt)
  note len = \<open>32 dvd length buffer\<close> and i = \<open>32 dvd i\<close>
    and cap = \<open>length entries_index + length (listed_from buffer i) \<le> cap\<close>
  show ?case
  proof (cases "i < length buffer")
    case False
    then show ?thesis
      by (subst scan_loop.simps) (simp add: listed_from_end)
  next
    case True
    have dvd: "32 dvd i + 32"
      using i by simp
    have r11: "i + 11 < length buffer"
      using slot_in_buffer [OF len i True] by simp
    show ?thesis
    proof (cases "entry_listed buffer i")
      case False
      note lf = listed_from_skip [OF True False]
      show ?thesis
      proof (cases "DELETED_ENTRY \<noteq> buffer ! i \<and> UNUSED_ENTRY \<noteq> buffer ! i")
        case False
        from 1(3) [OF True False len dvd] cap
        have rec: "scan_loop buffer cap (i + 32) entries_index cnt
                = Inr (entries_index @ map of_nat (listed_from buffer i),
                       cnt + of_nat (length (listed_from buffer i)))"
          by (simp add: lf)
        from True False show ?thesis
          by (subst scan_loop.simps) (auto simp: rec)
      next
        case first: True
        with False have fake: "\<not> FAKE_ENTRY \<noteq> buffer ! (i + 11)"
          by (auto simp: entry_listed_def FAKE_ENTRY_def DELETED_ENTRY_def UNUSED_ENTRY_def)
        from 1(2) [OF True first r11 fake len dvd] cap
        have rec: "scan_loop buffer cap (i + 32) entries_index cnt
                = Inr (entries_index @ map of_nat (listed_from buffer i),
                       cnt + of_nat (length (listed_from buffer i)))"
          by (simp add: lf)
        from True first r11 fake show ?thesis
          by (subst scan_loop.simps) (simp add: rec)
      qed
    next
      case listed: True
      note lf = listed_from_take [OF True listed]
      from listed have first: "DELETED_ENTRY \<noteq> buffer ! i \<and> UNUSED_ENTRY \<noteq> buffer ! i"
        and fake: "FAKE_ENTRY \<noteq> buffer ! (i + 11)"
        by (auto simp: entry_listed_def FAKE_ENTRY_def DELETED_ENTRY_def UNUSED_ENTRY_def)
      have room: "length entries_index < cap"
        using cap by (simp add: lf)
      have "length (entries_index @ [of_nat i]) + length (listed_from buffer (i + 32)) \<le> cap"
        using cap by (simp add: lf)
      from 1(1) [OF True first r11 fake room len dvd this]
      have rec: "scan_loop buffer cap (i + 32) (entries_index @ [of_nat i]) (cnt + 1)
              = Inr (entries_index @ map of_nat (listed_from buffer i),
                     cnt + of_nat (length (listed_from buffer i)))"
        by (simp add: lf add.assoc)
      from True first r11 fake room show ?thesis
        by (subst scan_loop.simps) (simp add: rec)
    qed
  qed
qed

lemma listed_from_slots_aux:
  assumes "32 dvd length buffer"
  shows "listed_from buffer (32 * k)
           = filter (entry_listed buffer) (map (\<lambda>j. 32 * j) [k..<length buffer div 32])"
proof (induction "length buffer div 32 - k" arbitrary: k)
  case 0
  then have "\<not> 32 * k < length buffer"
    using assms by (auto elim!: dvdE)
  with 0 show ?case
    by (simp add: listed_from_end)
next
  case (Suc d)
  then have k: "k < length buffer div 32"
    by simp
  then have in_range: "32 * k < length buffer"
    using assms by (auto elim!: dvdE)
  have upt: "[k..<length buffer div 32] = k # [Suc k..<length buffer div 32]"
    using k by (rule upt_conv_Cons)
  have "d = length buffer div 32 - Suc k"
    using Suc(2) by simp
  from Suc(1) [OF this]
  have rec: "listed_from buffer (32 * k + 32)
          = filter (entry_listed buffer) (map (\<lambda>j. 32 * j) [Suc k..<length buffer div 32])"
    by (simp add: add.commute)
  show ?case
  proof (cases "entry_listed buffer (32 * k)")
    case True
    show ?thesis
      unfolding listed_from_take [OF in_range True] rec upt using True by simp
  next
    case False
    show ?thesis
      unfolding listed_from_skip [OF in_range False] rec upt using False by simp
  qed
qed

lemma listed_from_slots:
  "32 dvd length buffer \<Longrightarrow>
   listed_from buffer 0 = filter (entry_listed buffer) (slot_offsets (length buffer))"
  using listed_from_slots_aux [of buffer 0] by (simp add: slot_offsets_def)

lemma slot_offsets_in_buffer:
  assumes "e \<in> set (slot_offsets n)"
  shows "e + 32 \<le> n"
proof -
  from assms obtain k where k: "e = 32 * k" "k < n div 32"
    by (auto simp: slot_offsets_def)
  then have "Suc k \<le> n div 32" by simp
  then have "32 * Suc k \<le> 32 * (n div 32)" by (rule mult_le_mono2)
  also have "\<dots> \<le> n" by simp
  finally show ?thesis using k(1) by simp
qed

lemma length_slot_offsets [simp]: "length (slot_offsets n) = n div 32"
  by (simp add: slot_offsets_def)

subsection \<open>The fill loop\<close>

lemma of_nat_unat_ucast_16_32: "(of_nat (unat (e :: 16 word)) :: 32 word) = ucast e"
  by simp

lemma fill_loop_rows:
  assumes "\<forall>i \<in> set is. i < cap \<and> index_at g entries_index i + 32 \<le> length buffer"
  shows "fill_loop g buffer entries_index cap is dl
           = Inr (dl\<lparr>entry_name := entry_name dl
                      @ map (\<lambda>i. name_at buffer (index_at g entries_index i)) is,
                     attribute := attribute dl
                      @ map (\<lambda>i. attribute_at buffer (index_at g entries_index i)) is,
                     first_logical_cluster := first_logical_cluster dl
                      @ map (\<lambda>i. first_cluster_at buffer (index_at g entries_index i)) is,
                     entry_size := entry_size dl
                      @ map (\<lambda>i. size_at buffer (index_at g entries_index i)) is\<rparr>)"
  using assms
proof (induction "is" arbitrary: dl)
  case Nil
  then show ?case by simp
next
  case (Cons i "is")
  from Cons.prems have i: "i < cap" "index_at g entries_index i + 32 \<le> length buffer"
    and rest: "\<forall>i \<in> set is. i < cap \<and> index_at g entries_index i + 32 \<le> length buffer"
    by simp_all
  show ?case
    using i
    by (cases "i < length entries_index")
       (simp_all add: Cons.IH [OF rest] Let_def index_at_def name_at_def attribute_at_def
         first_cluster_at_def size_at_def)
qed


section \<open>The directory buffer\<close>

lemma seek_read_inside:
  assumes "pos + n \<le> length img" "n \<le> length buff"
  shows "seek_read h img pos n buff
           = Inr (n, take n (drop pos img) @ drop n buff,
                  h\<lparr>io_log := io_log h @ [(pos, n)]\<rparr>)"
  using assms by (auto simp: seek_read_def Let_def)

lemma kmc_read_sector_region:
  assumes "s_file_img h = Some img" "(c :: 16 word) < 0xFF8"
    and "unat (s_sector_size h) \<le> length buff"
    and "(unat c + 32) * unat (s_sector_size h) \<le> length img"
  shows "kmc_read_sector h (ucast c + FAT12_CLUSTER_OFFSET_FACTOR) buff
           = Inr (unat (s_sector_size h),
                  take (unat (s_sector_size h))
                    (drop ((unat c + 31) * unat (s_sector_size h)) img)
                  @ drop (unat (s_sector_size h)) buff,
                  h\<lparr>io_log := io_log h
                       @ [((unat c + 31) * unat (s_sector_size h), unat (s_sector_size h))]\<rparr>)"
proof -
  have "(unat c + 31) * unat (s_sector_size h) + unat (s_sector_size h) \<le> length img"
    using assms(4) by (simp add: algebra_simps)
  then show ?thesis
    using assms(1,3)
    by (simp add: kmc_read_sector_def cluster_sector_position [OF assms(2)] seek_read_inside)
qed

text \<open>The root directory: one read of \<open>max_root_dir_entries / 16\<close> sectors at sector
  19, into a buffer of \<open>bytes_per_sector\<close> times that many bytes.\<close>

lemma unat_root_position:
  "unat (ROOT_DIR_12_PHYSC_BASE_INDEX * ucast (ss :: 16 word) :: 32 word) = 19 * unat ss"
proof -
  have "unat ss < 65536"
    using unsigned_less [of ss, where ?'a = nat] by simp
  then have "unat (19 :: 32 word) * unat (ucast ss :: 32 word) < 2 ^ LENGTH(32)"
    by (simp add: unat_ucast_up)
  then show ?thesis
    by (simp add: unat_mult_lem [THEN iffD1] unat_ucast_up ROOT_DIR_12_PHYSC_BASE_INDEX_def)
qed

lemma read_dir_buffer_root:
  assumes "s_file_img (hal st) = Some img"
  shows "read_dir_buffer g st 0 =
     (let cnt = unat (max_root_dir_entries (s_FAT12Infor st) div 16);
          n = cnt * unat (s_sector_size (hal st));
          data = take n (drop (19 * unat (s_sector_size (hal st))) img);
          buffer0 = malloc_bytes g (unat (bytes_per_sector (s_FAT12Infor st)) * cnt)
      in if length data \<le> length buffer0
         then Some (Inr (data @ drop (length data) buffer0,
                unat (max_root_dir_entries (s_FAT12Infor st)),
                st\<lparr>hal := (hal st)\<lparr>io_log := io_log (hal st)
                       @ [(19 * unat (s_sector_size (hal st)), n)]\<rparr>\<rparr>))
         else Some (Inl OutOfBounds))"
  using assms
  by (simp add: read_dir_buffer_def ROOT_DIR_12_LOGICAL_BASE_INDEX_def Let_def
      kmc_read_multi_sector_def seek_read_def unat_root_position unat_mult_16_32)

text \<open>
  A subdirectory: one sector per cluster \<open>c\<close> of the chain, read at sector \<open>c + 31\<close>
  into consecutive parts of the buffer. \<open>pre\<close> is the part of the buffer already
  filled.
\<close>

lemma read_chain_sectors_clusters:
  assumes "s_file_img (hal st) = Some img"
    and "s_sector_size (hal st) = bytes_per_sector (s_FAT12Infor st)"
    and "\<forall>c \<in> set cs. c < 0xFF8 \<and> (unat c + 32) * unat (s_sector_size (hal st)) \<le> length img"
    and "unat i = length pre" "length rest = length cs * unat (s_sector_size (hal st))"
    and "length pre + length rest < 2 ^ 32"
  shows "read_chain_sectors st (cs @ [t]) (pre @ rest) i
           = Inr (pre @ concat (map (\<lambda>c. take (unat (s_sector_size (hal st)))
                     (drop ((unat c + 31) * unat (s_sector_size (hal st))) img)) cs),
                  st\<lparr>hal := (hal st)\<lparr>io_log := io_log (hal st)
                           @ map (\<lambda>c. ((unat c + 31) * unat (s_sector_size (hal st)),
                                       unat (s_sector_size (hal st)))) cs\<rparr>\<rparr>)"
  using assms
proof (induction cs arbitrary: st pre rest i)
  case Nil
  then show ?case by simp
next
  case (Cons c cs)
  define ss where "ss = s_sector_size (hal st)"
  define sec where "sec = take (unat ss) (drop ((unat c + 31) * unat ss) img)"
  define st1 where "st1 = st\<lparr>hal := (hal st)\<lparr>io_log := io_log (hal st)
                               @ [((unat c + 31) * unat ss, unat ss)]\<rparr>\<rparr>"
  from Cons.prems(3) have c: "c < 0xFF8" "(unat c + 32) * unat ss \<le> length img"
    by (simp_all add: ss_def)
  have rest: "length rest = unat ss + length cs * unat ss"
    using Cons.prems(5) by (simp add: ss_def)
  have "(unat c + 31) * unat ss + unat ss \<le> length img"
    using c(2) by (simp add: algebra_simps)
  then have len: "length sec = unat ss"
    by (simp add: sec_def)
  have rd: "kmc_read_sector (hal st) (ucast c + FAT12_CLUSTER_OFFSET_FACTOR) rest
              = Inr (unat ss, sec @ drop (unat ss) rest,
                     (hal st)\<lparr>io_log := io_log (hal st) @ [((unat c + 31) * unat ss, unat ss)]\<rparr>)"
    using kmc_read_sector_region [OF Cons.prems(1) c(1), of rest] c(2) rest
    by (simp add: ss_def sec_def)
  obtain d ds where ds: "cs @ [t] = d # ds"
    by (cases cs) simp_all
  have "unat i + unat ss < 2 ^ 32"
    using Cons.prems(4,6) rest by simp
  then have i': "unat (i + ucast ss) = length (pre @ sec)"
    using Cons.prems(4) len
    by (simp add: unat_add_lem [THEN iffD1] unat_ucast_up)
  have step: "read_chain_sectors st (c # cs @ [t]) (pre @ rest) i
                = read_chain_sectors st1 (cs @ [t]) ((pre @ sec) @ drop (unat ss) rest)
                    (i + ucast ss)"
    using rd Cons.prems(2,4) by (simp add: ds st1_def ss_def)
  have "read_chain_sectors st1 (cs @ [t]) ((pre @ sec) @ drop (unat ss) rest) (i + ucast ss)
           = Inr ((pre @ sec) @ concat (map (\<lambda>c. take (unat (s_sector_size (hal st1)))
                     (drop ((unat c + 31) * unat (s_sector_size (hal st1))) img)) cs),
                  st1\<lparr>hal := (hal st1)\<lparr>io_log := io_log (hal st1)
                           @ map (\<lambda>c. ((unat c + 31) * unat (s_sector_size (hal st1)),
                                       unat (s_sector_size (hal st1)))) cs\<rparr>\<rparr>)"
    using Cons.prems i' rest len
    by (intro Cons.IH) (simp_all add: st1_def ss_def)
  then show ?case
    using step by (simp add: st1_def ss_def sec_def)
qed

lemma read_chain_sectors_frame:
  "read_chain_sectors st cs buffer i = Inr (buffer', st') \<Longrightarrow> st' = st\<lparr>hal := hal st'\<rparr>"
proof (induction st cs buffer i rule: read_chain_sectors.induct)
  case (3 st c c' cs buffer i)
  from "3.prems" obtain n region h where
    rd: "kmc_read_sector (hal st) (ucast c + FAT12_CLUSTER_OFFSET_FACTOR) (drop (unat i) buffer)
           = Inr (n, region, h)"
    and rec: "read_chain_sectors (st\<lparr>hal := h\<rparr>) (c' # cs) (take (unat i) buffer @ region)
           (i + ucast (bytes_per_sector (s_FAT12Infor st))) = Inr (buffer', st')"
    by (auto split: sum.splits)
  from "3.IH" [OF rd refl refl rec] show ?case
    by simp
qed simp_all

lemma read_dir_buffer_frame:
  assumes "read_dir_buffer g st f = Some (Inr (buffer, cap, st1))"
  shows "s_dirlist st1 = s_dirlist st \<and> s_FAT12Infor st1 = s_FAT12Infor st
         \<and> s_fat_table st1 = s_fat_table st \<and> sink_calls st1 = sink_calls st
         \<and> print_file_callback st1 = print_file_callback st"
proof (cases "f = 0")
  case True
  with assms show ?thesis
    by (auto simp: read_dir_buffer_def ROOT_DIR_12_LOGICAL_BASE_INDEX_def Let_def
        split: sum.splits)
next
  case False
  then have "0 < f"
    by (simp add: word_greater_zero_iff)
  with False assms obtain n st0 st2 where
    walk: "fatfs_get_cluster_chain st f = Some (Inr (n, st0))"
    and rd: "read_chain_sectors st0 (s_cluster_chain st0)
               (malloc_bytes g (unat (n * ucast (bytes_per_sector (s_FAT12Infor st0))))) 0
             = Inr (buffer, st2)"
    and st1: "st1 = st2"
    by (auto simp: read_dir_buffer_def ROOT_DIR_12_LOGICAL_BASE_INDEX_def Let_def
        split: option.splits sum.splits)
  from fatfs_get_cluster_chain_result [OF walk] obtain path where
    "st0 = st\<lparr>s_cluster_chain := path\<rparr>"
    by blast
  moreover from read_chain_sectors_frame [OF rd] have "st2 = st0\<lparr>hal := hal st2\<rparr>" .
  ultimately have "st1 = st\<lparr>s_cluster_chain := path, hal := hal st2\<rparr>"
    using st1 by simp
  then show ?thesis
    by simp
qed

lemma read_dir_buffer_subdir:
  assumes img: "s_file_img (hal st) = Some img"
    and ss: "s_sector_size (hal st) = bytes_per_sector (s_FAT12Infor st)"
    and empty: "s_cluster_chain st = []" and f: "f \<noteq> 0"
    and chain: "fat_follow st k f = Some t" "0xFF8 \<le> t"
    and cover: "\<forall>c \<in> set (butlast (f # fat_path st k f)).
                  (unat c + 32) * unat (bytes_per_sector (s_FAT12Infor st)) \<le> length img"
  shows "read_dir_buffer g st f
           = Some (Inr (concat (map (\<lambda>c. take (unat (bytes_per_sector (s_FAT12Infor st)))
                     (drop ((unat c + 31) * unat (bytes_per_sector (s_FAT12Infor st))) img))
                       (butlast (f # fat_path st k f))),
                 k * 16,
                 st\<lparr>s_cluster_chain := f # fat_path st k f,
                    hal := (hal st)\<lparr>io_log := io_log (hal st)
                      @ map (\<lambda>c. ((unat c + 31) * unat (bytes_per_sector (s_FAT12Infor st)),
                                  unat (bytes_per_sector (s_FAT12Infor st))))
                          (butlast (f # fat_path st k f))\<rparr>\<rparr>))"
proof -
  define cs where "cs = butlast (f # fat_path st k f)"
  define st1 where "st1 = st\<lparr>s_cluster_chain := f # fat_path st k f\<rparr>"
  define bps where "bps = unat (bytes_per_sector (s_FAT12Infor st))"
  have walk: "fatfs_get_cluster_chain st f = Some (Inr (of_nat k, st1))"
    using fatfs_get_cluster_chain_returns [OF chain] empty by (simp add: st1_def)
  have k: "k \<le> 4088"
    by (rule fat_follow_length_bound [OF chain])
  then have uk: "unat (of_nat k :: 32 word) = k"
    by (simp add: unat_of_nat)
  have "bps < 65536"
    using unsigned_less [of "bytes_per_sector (s_FAT12Infor st)", where ?'a = nat]
    by (simp add: bps_def)
  with k have "k * bps \<le> 4088 * 65536"
    by (intro mult_mono) simp_all
  then have small: "k * bps < 2 ^ 32"
    by simp
  then have size: "unat (of_nat k * ucast (bytes_per_sector (s_FAT12Infor st)) :: 32 word)
                     = k * bps"
    by (simp add: unat_mult_lem [THEN iffD1] uk unat_ucast_up bps_def)
  have "last (f # fat_path st k f) = t"
    by (rule last_fat_path [OF chain(1)])
  then have split: "f # fat_path st k f = cs @ [t]"
    unfolding cs_def by (metis append_butlast_last_id list.distinct(1))
  have lcs: "length cs = k"
    using length_fat_path [OF chain(1)] by (simp add: cs_def del: butlast.simps)
  have below: "\<forall>c \<in> set cs. c < 0xFF8"
    unfolding cs_def by (rule chain_linked_butlast [OF chain_linked_fat_path [OF chain(1)]])
  have fields: "hal st1 = hal st" "s_FAT12Infor st1 = s_FAT12Infor st"
    "s_cluster_chain st1 = cs @ [t]"
    by (simp_all add: st1_def split)
  have rd: "read_chain_sectors st1 (cs @ [t]) ([] @ malloc_bytes g (k * bps)) 0
           = Inr ([] @ concat (map (\<lambda>c. take (unat (s_sector_size (hal st1)))
                     (drop ((unat c + 31) * unat (s_sector_size (hal st1))) img)) cs),
                  st1\<lparr>hal := (hal st1)\<lparr>io_log := io_log (hal st1)
                           @ map (\<lambda>c. ((unat c + 31) * unat (s_sector_size (hal st1)),
                                       unat (s_sector_size (hal st1)))) cs\<rparr>\<rparr>)"
    using img ss below cover small lcs
    by (intro read_chain_sectors_clusters) (simp_all add: fields cs_def bps_def)
  have pos: "0 < f"
    using f by (simp add: word_greater_zero_iff)
  have rd': "read_chain_sectors st1 (cs @ [t]) (malloc_bytes g (k * bps)) 0
           = Inr (concat (map (\<lambda>c. take bps (drop ((unat c + 31) * bps) img)) cs),
                  st\<lparr>s_cluster_chain := f # fat_path st k f,
                     hal := (hal st)\<lparr>io_log := io_log (hal st)
                           @ map (\<lambda>c. ((unat c + 31) * bps, bps)) cs\<rparr>\<rparr>)"
    using rd by (simp add: fields ss bps_def) (simp add: st1_def)
  have "read_dir_buffer g st f
          = Some (Inr (concat (map (\<lambda>c. take bps (drop ((unat c + 31) * bps) img)) cs),
                 k * 16,
                 st\<lparr>s_cluster_chain := f # fat_path st k f,
                    hal := (hal st)\<lparr>io_log := io_log (hal st)
                      @ map (\<lambda>c. ((unat c + 31) * bps, bps)) cs\<rparr>\<rparr>))"
    using f pos
    by (simp add: read_dir_buffer_def ROOT_DIR_12_LOGICAL_BASE_INDEX_def walk Let_def
        fields size rd' uk ENTRIES_PER_SECTOR_def)
  then show ?thesis
    unfolding cs_def bps_def .
qed

section \<open>fatfs\_read\_dir as a whole\<close>


lemma fatfs_read_dir_listing:
  assumes buf: "read_dir_buffer g st f = Some (Inr (buffer, cap, st1))"
    and zero: "list_count (s_dirlist st) = 0"
    and aligned: "32 dvd length buffer" and small: "length buffer \<le> 65536"
    and room: "length (filter (entry_listed buffer) (slot_offsets (length buffer))) \<le> cap"
  shows "fatfs_read_dir g st f
           = Some (Inr (st1\<lparr>s_dirlist :=
                \<lparr>entry_name = map (name_at buffer)
                   (filter (entry_listed buffer) (slot_offsets (length buffer))),
                 attribute = map (attribute_at buffer)
                   (filter (entry_listed buffer) (slot_offsets (length buffer))),
                 first_logical_cluster = map (first_cluster_at buffer)
                   (filter (entry_listed buffer) (slot_offsets (length buffer))),
                 entry_size = map (size_at buffer)
                   (filter (entry_listed buffer) (slot_offsets (length buffer))),
                 list_count = of_nat (length
                   (filter (entry_listed buffer) (slot_offsets (length buffer))))\<rparr>,
                s_cluster_chain := []\<rparr>))"
proof -
  define offs where "offs = filter (entry_listed buffer) (slot_offsets (length buffer))"
  have lf: "listed_from buffer 0 = offs"
    by (simp add: listed_from_slots [OF aligned] offs_def)
  have n: "length offs \<le> length buffer div 32"
    unfolding offs_def using length_filter_le [of _ "slot_offsets (length buffer)"] by simp
  have in_buffer: "e + 32 \<le> length buffer" if "e \<in> set offs" for e
    using that slot_offsets_in_buffer [of e "length buffer"] by (simp add: offs_def)
  have frame: "list_count (s_dirlist st1) = 0"
    using read_dir_buffer_frame [OF buf] zero by simp
  have room': "length offs \<le> cap"
    using room by (simp add: offs_def)
  have scan: "scan_loop buffer cap 0 [] (list_count (s_dirlist st1))
                = Inr (map of_nat offs, of_nat (length offs))"
    using scan_loop_returns [OF aligned, of 0 "[]" cap 0] room'
    by (simp add: lf frame)
  have "length offs < 65536"
    using n small by simp
  then have un: "unat (of_nat (length offs) :: 16 word) = length offs"
    by (simp add: unat_of_nat)
  have idx: "index_at g (map of_nat offs) i = offs ! i" if "i < length offs" for i
  proof -
    have "offs ! i + 32 \<le> length buffer"
      using that by (intro in_buffer) simp
    with small have "offs ! i < 65536"
      by simp
    then have "unat (of_nat (offs ! i) :: 16 word) = offs ! i"
      by (simp add: unat_of_nat)
    with that show ?thesis
      by (simp add: index_at_def)
  qed
  have ok: "\<forall>i \<in> set [0..<length offs]. i < cap
              \<and> index_at g (map of_nat offs) i + 32 \<le> length buffer"
    using room' idx in_buffer by auto
  have maps: "map (\<lambda>i. h (index_at g (map of_nat offs) i)) [0..<length offs] = map h offs"
    for h :: "nat \<Rightarrow> 'b"
    using idx by (intro nth_equalityI) simp_all
  have fill: "fill_loop g buffer (map of_nat offs) cap [0..<length offs]
                \<lparr>entry_name = [], attribute = [], first_logical_cluster = [],
                 entry_size = [], list_count = of_nat (length offs)\<rparr>
              = Inr \<lparr>entry_name = map (name_at buffer) offs,
                     attribute = map (attribute_at buffer) offs,
                     first_logical_cluster = map (first_cluster_at buffer) offs,
                     entry_size = map (size_at buffer) offs,
                     list_count = of_nat (length offs)\<rparr>"
    unfolding fill_loop_rows [OF ok] by (simp add: maps)
  have "\<not> 2 ^ 32 - 32 < length buffer"
    using small by simp
  then show ?thesis
    unfolding offs_def [symmetric]
    by (simp add: fatfs_read_dir_def buf scan un fill fatfs_clear_cluster_chain_def)
qed

section \<open>Directories of the test images\<close>

lemma filter_slots_single:
  assumes "m < n div 32" "\<forall>k < n div 32. P (32 * k) = (k = m)"
  shows "filter P (slot_offsets n) = [32 * m]"
proof -
  have split: "[0..<n div 32] = [0..<m] @ m # [Suc m..<n div 32]"
    using assms(1) by (metis le0 upt_add_eq_append upt_conv_Cons le_add_diff_inverse less_imp_le_nat add_0)
  have a: "filter P (map (\<lambda>k. 32 * k) [0..<m]) = []"
    using assms by (auto simp: filter_empty_conv)
  have b: "filter P (map (\<lambda>k. 32 * k) [Suc m..<n div 32]) = []"
    using assms by (auto simp: filter_empty_conv)
  show ?thesis
    unfolding slot_offsets_def split using assms a b by simp
qed

lemma filter_slots_none:
  assumes "\<forall>k < n div 32. \<not> P (32 * k)"
  shows "filter P (slot_offsets n) = []"
  using assms by (auto simp: slot_offsets_def filter_empty_conv)

lemma length_entries [simp]: "length hello_entry = 32" "length deleted_entry = 32"
  by (simp_all add: hello_entry_def deleted_entry_def)

lemma hello_root_listed:
  assumes "k < 224"
  shows "entry_listed hello_root (32 * k) = (k = 0)"
proof (cases "k = 0")
  case True
  then show ?thesis
    by (simp add: entry_listed_def hello_root_def hello_entry_def)
next
  case False
  then have "hello_root ! (32 * k) = 0"
    using assms by (simp add: hello_root_def nth_append)
  with False show ?thesis
    by (simp add: entry_listed_def)
qed

lemma hello_root_offsets:
  "filter (entry_listed hello_root) (slot_offsets 7168) = [0]"
  using filter_slots_single [of 0 7168 "entry_listed hello_root"] hello_root_listed
  by simp

lemma hello_root_fields:
  "name_at hello_root 0
     = [0x48, 0x45, 0x4C, 0x4C, 0x4F, 0x20, 0x20, 0x20, 0x54, 0x58, 0x54, 0x00]"
  "attribute_at hello_root 0 = 0x20"
  "first_cluster_at hello_root 0 = 2"
  "size_at hello_root 0 = 13"
  by (simp_all add: name_at_def attribute_at_def first_cluster_at_def size_at_def
      hello_root_def hello_entry_def hex_to_decimal_2 hex_to_decimal_4 nth_append)

lemma root_of_hello_image: "take 7168 (drop 9728 hello_image) = hello_root"
  by (simp add: hello_image_def floppy_image_root)

lemma hello_read_dir_buffer:
  "read_dir_buffer g hello_state 0
     = Some (Inr (hello_root, 224,
         hello_state\<lparr>hal := (hal hello_state)
           \<lparr>io_log := [(0, 512), (512, 4608), (9728, 7168)]\<rparr>\<rparr>))"
  by (simp add: read_dir_buffer_root [where img = hello_image] Let_def
      root_of_hello_image word_div_def)

lemma replicate_2: "replicate 2 x = [x, x]"
  by (simp add: numeral_2_eq_2)

lemma hello_listing_unfold:
  "hello_listing 1
     = \<lparr>entry_name = [[0x48, 0x45, 0x4C, 0x4C, 0x4F, 0x20, 0x20, 0x20, 0x54, 0x58, 0x54, 0x00]],
        attribute = [0x20], first_logical_cluster = [2], entry_size = [13],
        list_count = 1\<rparr>"
  "hello_listing 2
     = \<lparr>entry_name = [[0x48, 0x45, 0x4C, 0x4C, 0x4F, 0x20, 0x20, 0x20, 0x54, 0x58, 0x54, 0x00],
                      [0x48, 0x45, 0x4C, 0x4C, 0x4F, 0x20, 0x20, 0x20, 0x54, 0x58, 0x54, 0x00]],
        attribute = [0x20, 0x20], first_logical_cluster = [2, 2], entry_size = [13, 13],
        list_count = 2\<rparr>"
  by (simp_all add: hello_listing_def replicate_2)

lemma hello_read_dir_first: "fatfs_read_dir g hello_state 0 = Some (Inr hello_once)"
proof -
  have "length (filter (entry_listed hello_root) (slot_offsets (length hello_root))) \<le> 224"
    by (simp add: hello_root_offsets)
  from fatfs_read_dir_listing [OF hello_read_dir_buffer _ _ _ this, of g]
  show ?thesis
    by (simp add: hello_root_offsets hello_root_fields hello_listing_unfold hello_once_def)
qed





subsection \<open>A root directory of more than 2048 entries\<close>

lemma length_big_root [simp]: "length big_root = 66048"
  by (simp add: big_root_def)

lemma big_root_state_fields [simp]:
  "s_FAT12Infor big_root_state = boot_info 512 1 2064 9"
  "hal big_root_state = \<lparr>s_file_img = Some big_root_image, s_sector_size = 512,
                          io_log = [(0, 512), (512, 4608)]\<rparr>"
  "list_count (s_dirlist big_root_state) = 0"
  "s_cluster_chain big_root_state = []"
  by (simp_all add: big_root_state_def ResgisterPrint_file_func_def ready_state_def
      initial_state_def boot_info_def)

lemma root_of_big_root_image: "take 66048 (drop 9728 big_root_image) = big_root"
  by (simp add: big_root_image_def)

lemma big_root_read_dir_buffer:
  "read_dir_buffer g big_root_state 0
     = Some (Inr (big_root, 2064,
         big_root_state\<lparr>hal := (hal big_root_state)
           \<lparr>io_log := [(0, 512), (512, 4608), (9728, 66048)]\<rparr>\<rparr>))"
  by (simp add: read_dir_buffer_root [where img = big_root_image] Let_def
      root_of_big_root_image word_div_def)

lemma big_root_listed:
  assumes "k < 2064"
  shows "entry_listed big_root (32 * k) = (k = 2048)"
proof -
  consider "k = 0" | "0 < k" "k < 2048" | "k = 2048" | "2048 < k"
    by linarith
  then show ?thesis
  proof cases
    case 1
    then show ?thesis
      by (simp add: entry_listed_def big_root_def deleted_entry_def)
  next
    case 2
    then have "32 \<le> 32 * k" "32 * k - 32 < 65504"
      by linarith+
    then have "big_root ! (32 * k) = 0"
      by (simp add: big_root_def nth_append)
    with 2 show ?thesis
      by (simp add: entry_listed_def)
  next
    case 3
    then show ?thesis
      by (simp add: entry_listed_def big_root_def nth_append hello_entry_def)
  next
    case 4
    with assms have "65568 \<le> 32 * k" "32 * k - 65568 < 480"
      by linarith+
    then have "big_root ! (32 * k) = 0"
      by (simp add: big_root_def nth_append)
    with 4 show ?thesis
      by (simp add: entry_listed_def)
  qed
qed

lemma big_root_offsets:
  "filter (entry_listed big_root) (slot_offsets 66048) = [65536]"
  using filter_slots_single [of 2048 66048 "entry_listed big_root"]
  by (simp add: big_root_listed)

lemma listed_from_big_root: "listed_from big_root 0 = [65536]"
  using listed_from_slots [of big_root] by (simp add: big_root_offsets)

lemma big_root_fields:
  "name_at big_root 0
     = [0xE5, 0x4C, 0x44, 0x20, 0x20, 0x20, 0x20, 0x20, 0x54, 0x58, 0x54, 0x00]"
  "attribute_at big_root 0 = 0x20"
  "first_cluster_at big_root 0 = 3"
  "size_at big_root 0 = 7"
  by (simp_all add: name_at_def attribute_at_def first_cluster_at_def size_at_def
      big_root_def deleted_entry_def hex_to_decimal_2 hex_to_decimal_4 nth_append)

lemma big_root_fields_at_hello:
  "name_at big_root 65536
     = [0x48, 0x45, 0x4C, 0x4C, 0x4F, 0x20, 0x20, 0x20, 0x54, 0x58, 0x54, 0x00]"
  by (simp add: name_at_def big_root_def hello_entry_def)

lemma big_root_read_dir:
  "fatfs_read_dir zero_garbage big_root_state 0
     = Some (Inr (big_root_state
         \<lparr>hal := (hal big_root_state)\<lparr>io_log := [(0, 512), (512, 4608), (9728, 66048)]\<rparr>,
          s_dirlist := big_root_listing\<rparr>))"
proof -
  have scan: "scan_loop big_root 2064 0 [] 0 = Inr ([0], 1)"
    using scan_loop_returns [of big_root 0 "[]" 2064 0]
    by (simp add: listed_from_big_root)
  have idx: "index_at zero_garbage [0] 0 = 0"
    by (simp add: index_at_def)
  have fill: "fill_loop zero_garbage big_root [0] 2064 [0]
                \<lparr>entry_name = [], attribute = [], first_logical_cluster = [],
                 entry_size = [], list_count = 1\<rparr>
              = Inr big_root_listing"
    by (subst fill_loop_rows)
       (simp_all add: idx big_root_fields big_root_listing_def)
  show ?thesis
    unfolding fatfs_read_dir_def big_root_read_dir_buffer
    by (simp add: scan fill fatfs_clear_cluster_chain_def del: fill_loop.simps)
qed

lemma read_boot_fields_boot_sector_big_root:
  "read_boot_fields (boot_sector 0 2 1 0x10 0x08 9) = boot_info 512 1 2064 9"
  by (simp add: read_boot_fields_def boot_info_def boot_sector_def hex_to_decimal_1
      hex_to_decimal_2 upt_0_8 nth_append)

lemma fatfs_init_big_root:
  "fatfs_init g (one_file big_root_image) initial_state ''floppy.img''
     = Inr (GOOD_CONDITION, ready_state big_root_image (boot_info 512 1 2064 9) 512 hello_fat)"
proof -
  have w: "one_file big_root_image ''floppy.img'' = Some big_root_image"
    by (simp add: one_file_def)
  have len: "length big_root_image = 75776"
    by (simp add: big_root_image_def)
  have l: "512 \<le> length big_root_image"
    by (simp add: len)
  have r: "read_boot_fields (take 512 big_root_image) = boot_info 512 1 2064 9"
    by (simp add: big_root_image_def read_boot_fields_boot_sector_big_root)
  have inv: "\<not> boot_sector_invalid (boot_info 512 1 2064 9)"
    by (simp add: boot_sector_invalid_def boot_info_def)
  have ss: "(if bytes_per_sector (boot_info 512 1 2064 9) = 0 then 512
             else bytes_per_sector (boot_info 512 1 2064 9)) = 512"
    by (simp add: boot_info_def)
  have spf: "sectors_per_FAT (boot_info 512 1 2064 9) = 9"
    by (simp add: boot_info_def)
  have fat: "take 4608 (drop 512 big_root_image) = hello_fat"
    by (simp add: big_root_image_def)
  show ?thesis
    unfolding fatfs_init_opened
        [of "one_file big_root_image" "''floppy.img''" big_root_image
            "boot_info 512 1 2064 9", OF w l r]
    using inv
    by (simp add: ss spf fat len ready_state_def initial_state_def)
qed

subsection \<open>The device reads of a directory listing\<close>

lemma read_dir_buffer_root_log:
  assumes img: "s_file_img (hal st) = Some img"
    and ss: "s_sector_size (hal st) = bytes_per_sector (s_FAT12Infor st)"
  shows "\<exists>buffer. read_dir_buffer g st 0
           = Some (Inr (buffer, unat (max_root_dir_entries (s_FAT12Infor st)),
               st\<lparr>hal := (hal st)\<lparr>io_log := io_log (hal st)
                 @ [(19 * unat (bytes_per_sector (s_FAT12Infor st)),
                     unat (max_root_dir_entries (s_FAT12Infor st) div 16)
                       * unat (bytes_per_sector (s_FAT12Infor st)))]\<rparr>\<rparr>))"
  by (simp add: read_dir_buffer_root [OF img] ss Let_def mult.commute)

lemma fatfs_read_dir_hal:
  assumes "fatfs_read_dir g st f = Some (Inr st')"
    and "read_dir_buffer g st f = Some (Inr (buffer, cap, st1))"
  shows "hal st' = hal st1"
  using assms
  by (auto simp: fatfs_read_dir_def fatfs_clear_cluster_chain_def split: if_splits sum.splits)

lemma fatfs_read_dir_root_log:
  assumes img: "s_file_img (hal st) = Some img"
    and ss: "s_sector_size (hal st) = bytes_per_sector (s_FAT12Infor st)"
    and rd: "fatfs_read_dir g st 0 = Some (Inr st')"
  shows "io_log (hal st') = io_log (hal st)
           @ [(19 * unat (bytes_per_sector (s_FAT12Infor st)),
               unat (max_root_dir_entries (s_FAT12Infor st) div 16)
                 * unat (bytes_per_sector (s_FAT12Infor st)))]"
proof -
  from read_dir_buffer_root_log [OF img ss, of g] obtain buffer where
    "read_dir_buffer g st 0
       = Some (Inr (buffer, unat (max_root_dir_entries (s_FAT12Infor st)),
           st\<lparr>hal := (hal st)\<lparr>io_log := io_log (hal st)
             @ [(19 * unat (bytes_per_sector (s_FAT12Infor st)),
                 unat (max_root_dir_entries (s_FAT12Infor st) div 16)
                   * unat (bytes_per_sector (s_FAT12Infor st)))]\<rparr>\<rparr>))"
    by blast
  from fatfs_read_dir_hal [OF rd this] show ?thesis
    by simp
qed

lemma stock_geometry:
  assumes "spec_root_dir_sector b = 19" "spec_data_region_sector b = 33"
    and "sectors_per_cluster b = 1" and "2 \<le> c"
  shows "unat c + 31 = spec_cluster_to_sector b c"
proof -
  from \<open>2 \<le> c\<close> have "2 \<le> unat c"
    by (simp add: word_le_nat_alt)
  with assms(2,3) show ?thesis
    by (simp add: spec_cluster_to_sector_def)
qed

lemma fatfs_read_dir_subdir_log:
  assumes img: "s_file_img (hal st) = Some img"
    and ss: "s_sector_size (hal st) = bytes_per_sector (s_FAT12Infor st)"
    and empty: "s_cluster_chain st = []" and f: "f \<noteq> 0"
    and chain: "fat_follow st k f = Some t" "0xFF8 \<le> t"
    and cover: "\<forall>c \<in> set (butlast (f # fat_path st k f)).
                  (unat c + 32) * unat (bytes_per_sector (s_FAT12Infor st)) \<le> length img"
    and rd: "fatfs_read_dir g st f = Some (Inr st')"
  shows "io_log (hal st') = io_log (hal st)
           @ map (\<lambda>c. ((unat c + 31) * unat (bytes_per_sector (s_FAT12Infor st)),
                       unat (bytes_per_sector (s_FAT12Infor st))))
               (butlast (f # fat_path st k f))"
  using fatfs_read_dir_hal [OF rd read_dir_buffer_subdir [OF img ss empty f chain cover]]
  by simp

subsection \<open>The image with sectors of 1024 bytes\<close>

lemma length_g1024 [simp]: "length g1024_fat = 5120" "length g1024_image = 34816"
  by (simp_all add: g1024_fat_def g1024_image_def)

lemma g1024_state_fields [simp]:
  "s_fat_table g1024_state = g1024_fat"
  "s_FAT12Infor g1024_state = boot_info 1024 1 224 5"
  "s_cluster_chain g1024_state = []"
  "print_file_callback g1024_state = True"
  "sink_calls g1024_state = []"
  "hal g1024_state = \<lparr>s_file_img = Some g1024_image, s_sector_size = 1024,
                       io_log = [(0, 512), (1024, 5120)]\<rparr>"
  "s_dirlist g1024_state = \<lparr>entry_name = [], attribute = [], first_logical_cluster = [],
                            entry_size = [], list_count = 0\<rparr>"
  by (simp_all add: g1024_state_def ResgisterPrint_file_func_def ready_state_def
      initial_state_def boot_info_def)

lemma read_boot_fields_boot_sector_1024:
  "read_boot_fields (boot_sector 0 4 1 0xE0 0 5) = boot_info 1024 1 224 5"
  by (simp add: read_boot_fields_def boot_info_def boot_sector_def hex_to_decimal_1
      hex_to_decimal_2 upt_0_8 nth_append)

lemma g1024_image_regions:
  "take 512 g1024_image = boot_sector 0 4 1 0xE0 0 5"
  "take 5120 (drop 1024 g1024_image) = g1024_fat"
  "take 14336 (drop 19456 g1024_image) = replicate 14336 0"
  "take 1024 (drop 33792 g1024_image) = replicate 1024 0"
  "take 7168 (drop 11264 g1024_image) = hello_root"
  "take 1024 (drop 18432 g1024_image) = hello_data @ replicate 512 0"
  by (simp_all add: g1024_image_def)

lemma fatfs_init_g1024:
  "fatfs_init g (one_file g1024_image) initial_state ''floppy.img''
     = Inr (GOOD_CONDITION, ready_state g1024_image (boot_info 1024 1 224 5) 1024 g1024_fat)"
proof -
  have w: "one_file g1024_image ''floppy.img'' = Some g1024_image"
    by (simp add: one_file_def)
  have l: "512 \<le> length g1024_image"
    by simp
  have r: "read_boot_fields (take 512 g1024_image) = boot_info 1024 1 224 5"
    by (simp add: g1024_image_regions read_boot_fields_boot_sector_1024)
  have inv: "\<not> boot_sector_invalid (boot_info 1024 1 224 5)"
    by (simp add: boot_sector_invalid_def boot_info_def)
  have ss: "(if bytes_per_sector (boot_info 1024 1 224 5) = 0 then 512
             else bytes_per_sector (boot_info 1024 1 224 5)) = 1024"
    by (simp add: boot_info_def)
  have spf: "sectors_per_FAT (boot_info 1024 1 224 5) = 5"
    by (simp add: boot_info_def)
  show ?thesis
    unfolding fatfs_init_opened
        [of "one_file g1024_image" "''floppy.img''" g1024_image "boot_info 1024 1 224 5",
         OF w l r]
    using inv
    by (simp add: ss spf g1024_image_regions ready_state_def initial_state_def)
qed

lemma read_FAT_entry_g1024: "read_FAT_entry g1024_state 2 = Inr 0xFFF"
  by (simp add: read_FAT_entry_def g1024_fat_def)

lemma g1024_read_dir:
  "fatfs_read_dir g g1024_state 0
     = Some (Inr (g1024_state
         \<lparr>hal := (hal g1024_state)
            \<lparr>io_log := [(0, 512), (1024, 5120), (19456, 14336)]\<rparr>\<rparr>))"
proof -
  have buf: "read_dir_buffer g g1024_state 0
     = Some (Inr (replicate 14336 0, 224,
         g1024_state\<lparr>hal := (hal g1024_state)
           \<lparr>io_log := [(0, 512), (1024, 5120), (19456, 14336)]\<rparr>\<rparr>))"
    by (simp add: read_dir_buffer_root [where img = g1024_image] Let_def
        g1024_image_regions word_div_def)
  have none: "filter (entry_listed (replicate 14336 0)) (slot_offsets 14336) = []"
    by (rule filter_slots_none) (simp add: entry_listed_def)
  from fatfs_read_dir_listing [OF buf]
  show ?thesis
    by (simp add: none)
qed

lemma g1024_read_file:
  "fatfs_read_file g g1024_state 2
     = Some (Inr (g1024_state
          \<lparr>hal := (hal g1024_state)
             \<lparr>io_log := [(0, 512), (1024, 5120), (33792, 1024)]\<rparr>,
           sink_calls := [(replicate 1024 0, 1024)]\<rparr>))"
proof -
  have "fat_follow g1024_state (Suc 0) 2 = Some 0xFFF"
    by (simp add: read_FAT_entry_g1024)
  from fatfs_read_file_clusters [OF _ _ _ _ this, of g1024_image g]
  show ?thesis
    by (simp add: read_FAT_entry_g1024 g1024_image_regions)
qed

lemma spec_geometry_g1024:
  "spec_root_dir_sector (boot_info 1024 1 224 5) = 11"
  "spec_root_dir_sectors (boot_info 1024 1 224 5) = 7"
  "spec_data_region_sector (boot_info 1024 1 224 5) = 18"
  "spec_cluster_to_sector (boot_info 1024 1 224 5) 2 = 18"
  by (simp_all add: spec_root_dir_sector_def spec_root_dir_sectors_def
      spec_data_region_sector_def spec_cluster_to_sector_def boot_info_def)

lemma spec_geometry_stock:
  "spec_root_dir_sector (boot_info 512 1 224 9) = 19"
  "spec_root_dir_sectors (boot_info 512 1 224 9) = 14"
  "spec_data_region_sector (boot_info 512 1 224 9) = 33"
  "spec_cluster_to_sector (boot_info 512 1 224 9) 2 = 33"
  by (simp_all add: spec_root_dir_sector_def spec_root_dir_sectors_def
      spec_data_region_sector_def spec_cluster_to_sector_def boot_info_def)

lemma g1024_read_subdir_buffer:
  "read_dir_buffer g g1024_state 2
     = Some (Inr (replicate 1024 0, 16,
         g1024_state\<lparr>s_cluster_chain := [2, 0xFFF],
           hal := (hal g1024_state)
             \<lparr>io_log := [(0, 512), (1024, 5120), (33792, 1024)]\<rparr>\<rparr>))"
  using read_dir_buffer_subdir [of g1024_state g1024_image 2 1 "0xFFF" g]
  by (simp add: read_FAT_entry_g1024 g1024_image_regions)

section \<open>The result of fatfs\_init\<close>

text \<open>
  C1. When the image file cannot be opened, \<^verbatim>\<open>fatfs_init\<close> should return
  \<^verbatim>\<open>FAILED_TO_OPEN\<close> and do nothing else. It does not: in a freshly started
  program it returns \<^verbatim>\<open>GOOD_CONDITION\<close>, and no call in any state returns
  \<^verbatim>\<open>FAILED_TO_OPEN\<close>.
\<close>

theorem fatfs_init_open_failure_reports_good:
  "fatfs_init g no_file initial_state file_name = Inr (GOOD_CONDITION, initial_state)
   \<and> fatfs_init g w st file_name \<noteq> Inr (FAILED_TO_OPEN, st')"
proof
  have "\<not> boot_sector_invalid (s_FAT12Infor initial_state)"
    by (simp add: boot_sector_invalid_def initial_state_def)
  then show "fatfs_init g no_file initial_state file_name
               = Inr (GOOD_CONDITION, initial_state)"
    by (simp add: fatfs_init_not_opened no_file_def)
       (simp add: initial_state_def kmc_update_sector_size_def malloc_bytes_def
         KMC_DEFAULT_SECTOR_SIZE_def)
  show "fatfs_init g w st file_name \<noteq> Inr (FAILED_TO_OPEN, st')"
    by (rule fatfs_init_never_failed_to_open)
qed

text \<open>
  C2. A boot sector with \<open>bytes_per_sector = 0\<close> should give
  \<^verbatim>\<open>BAD_BOOT_SECTOR\<close>. On the stock floppy image with these two bytes set to zero
  \<^verbatim>\<open>fatfs_init\<close> returns \<^verbatim>\<open>GOOD_CONDITION\<close>, keeps the sector size 512 and
  loads the FAT.
\<close>

theorem fatfs_init_zero_bytes_per_sector_reports_good:
  "fatfs_init g (one_file zero_bps_image) initial_state ''floppy.img''
     = Inr (GOOD_CONDITION,
            ready_state zero_bps_image (boot_info 0 1 224 9) 512 hello_fat)"
  unfolding zero_bps_image_def
  by (rule fatfs_init_floppy_image) (simp_all add: read_boot_fields_boot_sector_0)

section \<open>The value of a FAT entry\<close>

text \<open>
  C7. For every cluster index \<open>c\<close> whose two bytes lie inside the FAT buffer,
  \<^verbatim>\<open>read_FAT_entry\<close> returns, with \<open>off = \<lfloor>3c/2\<rfloor>\<close>,
  \<open>table[off] | ((table[off+1] & 0x0F) << 8)\<close> for even \<open>c\<close> and
  \<open>(table[off] >> 4) | (table[off+1] << 4)\<close> for odd \<open>c\<close>. The value is below
  \<open>2\<^sup>1\<^sup>2\<close>, and its bit \<open>k\<close> is bit \<open>12c + k\<close> of the table read as a
  little-endian bit string, that is, the 12 bits at nibble offset \<open>3c\<close>.
\<close>

theorem read_FAT_entry_value:
  assumes "3 * unat c div 2 + 1 < length (s_fat_table st)"
  shows "read_FAT_entry st c =
           Inr (if even (unat c)
                then ucast (s_fat_table st ! (3 * unat c div 2))
                       OR push_bit 8 (ucast (s_fat_table st ! (3 * unat c div 2 + 1) AND 0x0F))
                else ucast (drop_bit 4 (s_fat_table st ! (3 * unat c div 2)))
                       OR push_bit 4 (ucast (s_fat_table st ! (3 * unat c div 2 + 1))))
         \<and> (\<exists>v. read_FAT_entry st c = Inr v \<and> v < 0x1000
                \<and> (\<forall>k<12. bit v k = bit (s_fat_table st ! ((12 * unat c + k) div 8))
                                       ((12 * unat c + k) mod 8)))"
proof (cases "even (unat c)")
  case True
  with assms show ?thesis
    by (simp add: read_FAT_entry_def Let_def odd_word_and_1 fat_even_or fat_even_bound 
                fat_even_bits nibble_position_even)
next
  case False
  with assms show ?thesis
    by (simp add: read_FAT_entry_def Let_def odd_word_and_1 fat_odd_or fat_odd_bound 
                fat_odd_bits nibble_position_odd)
qed

theorem read_FAT_entry_value_witness:
  "3 * unat (2 :: 16 word) div 2 + 1 < length (s_fat_table hello_state)
   \<and> read_FAT_entry hello_state 2 = Inr 0xFFF
   \<and> 3 * unat (3 :: 16 word) div 2 + 1 < length (s_fat_table hello_state)
   \<and> read_FAT_entry hello_state 3 = Inr 0"
  using read_FAT_entry_value [of 2 hello_state] read_FAT_entry_value [of 3 hello_state]
  by (simp add: hello_fat_def)

section \<open>The cluster chain\<close>

lemma cycle_state_fields [simp]:
  "s_fat_table cycle_state = cycle_fat"
  "s_FAT12Infor cycle_state = boot_info 512 1 224 9"
  "s_cluster_chain cycle_state = []"
  "print_file_callback cycle_state = True"
  by (simp_all add: cycle_state_def ResgisterPrint_file_func_def ready_state_def
      initial_state_def)

lemma read_FAT_entry_cycle_2: "read_FAT_entry cycle_state 2 = Inr 2"
  by (simp add: read_FAT_entry_def cycle_fat_def)

lemma read_FAT_entry_hello:
  "read_FAT_entry hello_state 2 = Inr 0xFFF" "read_FAT_entry hello_state 1 = Inr 0xFFF"
  by (simp_all add: read_FAT_entry_def hello_fat_def)

lemma fat_follow_cycle: "fat_follow cycle_state (Suc 0) 2 = Some 2"
  by (simp add: read_FAT_entry_cycle_2)

lemma fat_follow_hello:
  "fat_follow hello_state (Suc 0) 2 = Some 0xFFF" "fat_follow hello_state (Suc 0) 1 = Some 0xFFF"
  by (simp_all add: read_FAT_entry_hello)

lemma hello_chain_2:
  "fatfs_get_cluster_chain hello_state 2
     = Some (Inr (1, hello_state\<lparr>s_cluster_chain := [2, 0xFFF]\<rparr>))"
  using fatfs_get_cluster_chain_returns [OF fat_follow_hello(1)]
  by (simp add: read_FAT_entry_hello)

lemma hello_chain_1:
  "fatfs_get_cluster_chain hello_state 1
     = Some (Inr (1, hello_state\<lparr>s_cluster_chain := [1, 0xFFF]\<rparr>))"
  using fatfs_get_cluster_chain_returns [OF fat_follow_hello(2)]
  by (simp add: read_FAT_entry_hello)

lemma cycle_chain_2: "fatfs_get_cluster_chain cycle_state 2 = None"
  by (rule fatfs_get_cluster_chain_cycle [of cycle_state 0 2 2 "Suc 0"])
     (simp_all add: read_FAT_entry_cycle_2)

text \<open>
  C3 (as stated). The chain walk is claimed to stop on a cyclic chain and to report
  CorruptChain. On the stock image whose FAT entry for cluster 2 is 2, neither
  \<^verbatim>\<open>fatfs_get_cluster_chain\<close> nor \<^verbatim>\<open>fatfs_read_file\<close> returns from cluster 2.
\<close>

theorem chain_walk_cycle_counterexample:
  "fatfs_get_cluster_chain cycle_state 2 = None
   \<and> fatfs_read_file zero_garbage cycle_state 2 = None"
  by (simp add: fatfs_read_file_def cycle_chain_2)

text \<open>
  C3 (amended). The chain walk has no bound on its steps and no CorruptChain result.
  It returns a chain exactly when following the FAT from the first cluster, with
  every look-up inside the FAT buffer, reaches a value of at least \<open>0xFF8\<close>. When
  the chain enters a cycle it never returns, and neither do \<^verbatim>\<open>fatfs_read_file\<close> and
  \<^verbatim>\<open>fatfs_read_dir\<close> of a subdirectory. When a terminal value is reached, that
  happens within 4088 look-ups and the chain is returned; nothing restricts the
  numbers on the way to \<open>[2, max_data_cluster]\<close>. A look-up outside the FAT buffer
  is undefined behaviour (\<^verbatim>\<open>read_FAT_entry\<close> has no bounds test); nothing is said
  here about a walk that makes one.
\<close>

theorem chain_walk_returns_chain_iff_terminal:
  "((\<exists>n st'. fatfs_get_cluster_chain st f = Some (Inr (n, st')))
      = (\<exists>k t. fat_follow st k f = Some t \<and> 0xFF8 \<le> t))
   \<and> (fat_follow st m f = Some c \<and> 0 < k \<and> fat_follow st k c = Some c \<longrightarrow>
        fatfs_get_cluster_chain st f = None \<and> fatfs_read_file g st f = None
        \<and> (f \<noteq> 0 \<longrightarrow> fatfs_read_dir g st f = None))
   \<and> (fat_follow st n f = Some t \<and> 0xFF8 \<le> t \<longrightarrow>
        n \<le> 4088
        \<and> fatfs_get_cluster_chain st f
            = Some (Inr (of_nat n,
                 st\<lparr>s_cluster_chain := s_cluster_chain st @ f # fat_path st n f\<rparr>)))"
proof (intro conjI impI)
  show "(\<exists>n st'. fatfs_get_cluster_chain st f = Some (Inr (n, st')))
          = (\<exists>k t. fat_follow st k f = Some t \<and> 0xFF8 \<le> t)"
  proof
    assume "\<exists>n st'. fatfs_get_cluster_chain st f = Some (Inr (n, st'))"
    then obtain n st' where "fatfs_get_cluster_chain st f = Some (Inr (n, st'))"
      by blast
    from fatfs_get_cluster_chain_result [OF this]
    show "\<exists>k t. fat_follow st k f = Some t \<and> 0xFF8 \<le> t"
      by blast
  next
    assume "\<exists>k t. fat_follow st k f = Some t \<and> 0xFF8 \<le> t"
    then obtain k t where kt: "fat_follow st k f = Some t" "0xFF8 \<le> t"
      by blast
    from fatfs_get_cluster_chain_returns [OF kt]
    show "\<exists>n st'. fatfs_get_cluster_chain st f = Some (Inr (n, st'))"
      by blast
  qed
next
  assume a: "fat_follow st m f = Some c \<and> 0 < k \<and> fat_follow st k c = Some c"
  then show none: "fatfs_get_cluster_chain st f = None"
    using fatfs_get_cluster_chain_cycle [of st m f c k] by simp
  then show "fatfs_read_file g st f = None"
    by (simp add: fatfs_read_file_def)
  assume f: "f \<noteq> 0"
  then have "0 < f"
    by (simp add: word_greater_zero_iff)
  with none f have "read_dir_buffer g st f = None"
    by (simp add: read_dir_buffer_def ROOT_DIR_12_LOGICAL_BASE_INDEX_def)
  then show "fatfs_read_dir g st f = None"
    by (simp add: fatfs_read_dir_def)
next
  assume a: "fat_follow st n f = Some t \<and> 0xFF8 \<le> t"
  then show "n \<le> 4088"
    using fat_follow_length_bound [of st n f t] by simp
  from a show "fatfs_get_cluster_chain st f
            = Some (Inr (of_nat n,
                 st\<lparr>s_cluster_chain := s_cluster_chain st @ f # fat_path st n f\<rparr>))"
    using fatfs_get_cluster_chain_returns [of st n f t] by simp
qed

theorem chain_walk_returns_chain_iff_terminal_witness:
  "fat_follow cycle_state 0 2 = Some 2 \<and> (0::nat) < 1 \<and> fat_follow cycle_state 1 2 = Some 2
   \<and> fatfs_get_cluster_chain cycle_state 2 = None
   \<and> fatfs_read_file zero_garbage cycle_state 2 = None
   \<and> fatfs_read_dir zero_garbage cycle_state 2 = None
   \<and> fat_follow hello_state 1 2 = Some 0xFFF \<and> (0xFF8 :: 16 word) \<le> 0xFFF
   \<and> fatfs_get_cluster_chain hello_state 2
       = Some (Inr (1, hello_state\<lparr>s_cluster_chain := [2, 0xFFF]\<rparr>))"
  using chain_walk_returns_chain_iff_terminal [of cycle_state 2 0 2 1 zero_garbage]
    chain_walk_returns_chain_iff_terminal [of hello_state 2 _ _ _ _ 1 "0xFFF"]
  by (simp add: read_FAT_entry_cycle_2 read_FAT_entry_hello)

text \<open>
  C6 (as stated). The terminal marker is claimed never to be stored, and no stored
  element to be 0, 1 or \<open>0xFF7\<close>. On the stock image the chain stored for the file
  at cluster 2 is \<open>[2, 0xFFF]\<close>, and the chain stored from cluster 1 is
  \<open>[1, 0xFFF]\<close>.
\<close>

theorem cluster_chain_stores_terminal_counterexample:
  "fatfs_get_cluster_chain hello_state 2
     = Some (Inr (1, hello_state\<lparr>s_cluster_chain := [2, 0xFFF]\<rparr>))
   \<and> fatfs_get_cluster_chain hello_state 1
     = Some (Inr (1, hello_state\<lparr>s_cluster_chain := [1, 0xFFF]\<rparr>))"
  by (simp add: hello_chain_2 hello_chain_1)

text \<open>
  C6 (amended). For every chain produced by the walk from first cluster \<open>f\<close>: the
  nodes \<open>f # path\<close> are appended to the list; the first is \<open>f\<close>; every node but the
  last is below \<open>0xFF8\<close> and has the next node as its FAT entry; the last node is
  the terminal marker itself, a value of at least \<open>0xFF8\<close>; the length returned is
  the number of nodes before it. Nothing excludes 0, 1 or \<open>0xFF7\<close> from the nodes.
\<close>

theorem cluster_chain_stored:
  assumes "fatfs_get_cluster_chain st f = Some (Inr (n, st'))"
  shows "\<exists>path. st' = st\<lparr>s_cluster_chain := s_cluster_chain st @ f # path\<rparr>
           \<and> unat n = length path
           \<and> (\<forall>i < length path. (f # path) ! i < 0xFF8
                  \<and> read_FAT_entry st ((f # path) ! i) = Inr (path ! i))
           \<and> 0xFF8 \<le> last (f # path)"
proof -
  from fatfs_get_cluster_chain_result [OF assms] obtain k t where
    k: "fat_follow st k f = Some t" "0xFF8 \<le> t" "unat n = k"
      "st' = st\<lparr>s_cluster_chain := s_cluster_chain st @ f # fat_path st k f\<rparr>"
    by blast
  let ?path = "fat_path st k f"
  have len: "length ?path = k"
    by (rule length_fat_path [OF k(1)])
  have "chain_linked st (f # ?path)"
    by (rule chain_linked_fat_path [OF k(1)])
  then have "\<forall>i < length ?path. (f # ?path) ! i < 0xFF8
                  \<and> read_FAT_entry st ((f # ?path) ! i) = Inr (?path ! i)"
    using chain_linked_nth [of st "f # ?path"] by simp
  moreover have "0xFF8 \<le> last (f # ?path)"
    using last_fat_path [OF k(1)] k(2) by simp
  ultimately show ?thesis
    using k(3,4) len by (intro exI [of _ ?path]) simp
qed

theorem cluster_chain_stored_witness:
  "fatfs_get_cluster_chain hello_state 2
     = Some (Inr (1, hello_state\<lparr>s_cluster_chain := [2, 0xFFF]\<rparr>))
   \<and> (\<exists>path. hello_state\<lparr>s_cluster_chain := [2, 0xFFF]\<rparr>
           = hello_state\<lparr>s_cluster_chain := s_cluster_chain hello_state @ 2 # path\<rparr>
         \<and> unat (1 :: 32 word) = length path
         \<and> (\<forall>i < length path. (2 # path) ! i < 0xFF8
                \<and> read_FAT_entry hello_state ((2 # path) ! i) = Inr (path ! i))
         \<and> 0xFF8 \<le> last (2 # path))"
  using cluster_chain_stored [OF hello_chain_2] hello_chain_2 by simp

section \<open>Reading a file\<close>

text \<open>
  C4 (as stated). The sink is claimed to receive
  \<open>bytes_per_sector \<times> sectors_per_cluster\<close> bytes per cluster. On the stock layout
  with two sectors per cluster (1024 bytes per cluster) the file at cluster 2 is
  delivered by one call with the 512 bytes of sector 33 and the length 512.
\<close>

theorem fatfs_read_file_cluster_size_counterexample:
  "fatfs_read_file zero_garbage spc2_state 2
     = Some (Inr (spc2_state
          \<lparr>hal := (hal spc2_state)\<lparr>io_log := [(0, 512), (512, 4608), (16896, 512)]\<rparr>,
           sink_calls := [(hello_data, 512)]\<rparr>))
   \<and> length hello_data = 512
   \<and> unat (bytes_per_sector (s_FAT12Infor spc2_state))
       * unat (sectors_per_cluster (s_FAT12Infor spc2_state)) = 1024"
proof -
  have "fat_follow spc2_state (Suc 0) 2 = Some 0xFFF"
    by (simp add: read_FAT_entry_spc2)
  from fatfs_read_file_clusters [OF _ _ _ _ this, of spc2_image zero_garbage]
  show ?thesis
    by (simp add: read_FAT_entry_spc2 sector_33_spc2)
qed

text \<open>
  C4 (amended). For every file read by \<^verbatim>\<open>fatfs_read_file\<close> from a first cluster
  whose chain has \<open>k\<close> clusters before the terminal value, in a state left by
  \<^verbatim>\<open>fatfs_init\<close> (image open, device sector size equal to \<open>bytes_per_sector\<close>,
  call-back registered, no chain pending) and with the sectors concerned inside the
  image: the sink is invoked exactly \<open>k\<close> times, once per cluster \<open>c\<close> in chain
  order, each time with the length \<open>bytes_per_sector\<close> and a buffer of that many
  bytes holding sector \<open>c + 31\<close> of the image. That is one sector per cluster whatever
  \<open>sectors_per_cluster\<close> is. On the stock image the file at cluster 2 is delivered
  by one call with the 512 bytes of sector 33, which start with the 13 bytes of the
  file.
\<close>

theorem fatfs_read_file_sink_calls:
  assumes "s_file_img (hal st) = Some img"
    and "s_sector_size (hal st) = bytes_per_sector (s_FAT12Infor st)"
    and "print_file_callback st" and "s_cluster_chain st = []"
    and "fat_follow st k f = Some t" "0xFF8 \<le> t"
    and "\<forall>c \<in> set (butlast (f # fat_path st k f)).
           (unat c + 32) * unat (bytes_per_sector (s_FAT12Infor st)) \<le> length img"
  shows "length (butlast (f # fat_path st k f)) = k
     \<and> fatfs_read_file g st f
         = Some (Inr (st\<lparr>hal := (hal st)\<lparr>io_log := io_log (hal st)
                   @ map (\<lambda>c. ((unat c + 31) * unat (bytes_per_sector (s_FAT12Infor st)),
                               unat (bytes_per_sector (s_FAT12Infor st))))
                       (butlast (f # fat_path st k f))\<rparr>,
                 sink_calls := sink_calls st
                   @ map (\<lambda>c. (take (unat (bytes_per_sector (s_FAT12Infor st)))
                                  (drop ((unat c + 31) * unat (bytes_per_sector (s_FAT12Infor st))) img),
                                ucast (bytes_per_sector (s_FAT12Infor st))))
                       (butlast (f # fat_path st k f))\<rparr>))"
proof (rule conjI)
  show "length (butlast (f # fat_path st k f)) = k"
    using length_fat_path [OF assms(5)] by (simp del: butlast.simps)
qed (rule fatfs_read_file_clusters [OF assms])

theorem fatfs_read_file_sink_calls_witness:
  "fat_follow hello_state 1 2 = Some 0xFFF
   \<and> butlast (2 # fat_path hello_state 1 2) = [2]
   \<and> (unat (2 :: 16 word) + 32) * unat (bytes_per_sector (s_FAT12Infor hello_state))
       \<le> length hello_image
   \<and> fatfs_read_file zero_garbage hello_state 2
       = Some (Inr (hello_state
            \<lparr>hal := (hal hello_state)\<lparr>io_log := [(0, 512), (512, 4608), (16896, 512)]\<rparr>,
             sink_calls := [(hello_data, 512)]\<rparr>))
   \<and> length hello_data = 512
   \<and> take 13 hello_data
       = [0x48, 0x65, 0x6C, 0x6C, 0x6F, 0x2C, 0x20, 0x77, 0x6F, 0x72, 0x6C, 0x64, 0x21]"
  using fatfs_read_file_sink_calls [of hello_state hello_image 1 2 "0xFFF" zero_garbage]
  by (simp add: read_FAT_entry_hello sector_33_hello)
     (simp add: hello_data_def)

section \<open>The directory listing\<close>

text \<open>
  A directory buffer of whole 32-byte entries and at most 65536 bytes, whose listed
  entries fit the index array, read into an empty listing: the listing holds, in the
  order of their offsets in the buffer, the name, attribute, first cluster and size
  of exactly the entries that pass the scan; no listed name starts with \<open>0x00\<close> or
  \<open>0xE5\<close> and no listed attribute is \<open>0x0F\<close>.
\<close>

lemma fatfs_read_dir_listing_on_disk_order:
  assumes "read_dir_buffer g st f = Some (Inr (buffer, cap, st1))"
    and "list_count (s_dirlist st) = 0"
    and "32 dvd length buffer" and "length buffer \<le> 65536"
    and "length (filter (entry_listed buffer) (slot_offsets (length buffer))) \<le> cap"
  shows "fatfs_read_dir g st f
           = Some (Inr (st1\<lparr>s_dirlist :=
                \<lparr>entry_name = map (name_at buffer)
                   (filter (entry_listed buffer) (slot_offsets (length buffer))),
                 attribute = map (attribute_at buffer)
                   (filter (entry_listed buffer) (slot_offsets (length buffer))),
                 first_logical_cluster = map (first_cluster_at buffer)
                   (filter (entry_listed buffer) (slot_offsets (length buffer))),
                 entry_size = map (size_at buffer)
                   (filter (entry_listed buffer) (slot_offsets (length buffer))),
                 list_count = of_nat (length
                   (filter (entry_listed buffer) (slot_offsets (length buffer))))\<rparr>,
                s_cluster_chain := []\<rparr>))
         \<and> (\<forall>e \<in> set (filter (entry_listed buffer) (slot_offsets (length buffer))).
               name_at buffer e ! 0 \<noteq> UNUSED_ENTRY \<and> name_at buffer e ! 0 \<noteq> DELETED_ENTRY
               \<and> attribute_at buffer e \<noteq> FAKE_ENTRY)"
proof (rule conjI)
  show "fatfs_read_dir g st f
           = Some (Inr (st1\<lparr>s_dirlist :=
                \<lparr>entry_name = map (name_at buffer)
                   (filter (entry_listed buffer) (slot_offsets (length buffer))),
                 attribute = map (attribute_at buffer)
                   (filter (entry_listed buffer) (slot_offsets (length buffer))),
                 first_logical_cluster = map (first_cluster_at buffer)
                   (filter (entry_listed buffer) (slot_offsets (length buffer))),
                 entry_size = map (size_at buffer)
                   (filter (entry_listed buffer) (slot_offsets (length buffer))),
                 list_count = of_nat (length
                   (filter (entry_listed buffer) (slot_offsets (length buffer))))\<rparr>,
                s_cluster_chain := []\<rparr>))"
    using assms by (rule fatfs_read_dir_listing)
next
  show "\<forall>e \<in> set (filter (entry_listed buffer) (slot_offsets (length buffer))).
          name_at buffer e ! 0 \<noteq> UNUSED_ENTRY \<and> name_at buffer e ! 0 \<noteq> DELETED_ENTRY
          \<and> attribute_at buffer e \<noteq> FAKE_ENTRY"
  proof
    fix e
    assume "e \<in> set (filter (entry_listed buffer) (slot_offsets (length buffer)))"
    then have listed: "entry_listed buffer e" and "e \<in> set (slot_offsets (length buffer))"
      by simp_all
    then have "e + 32 \<le> length buffer"
      using slot_offsets_in_buffer by blast
    then have "name_at buffer e ! 0 = buffer ! e"
      by (simp add: name_at_def nth_append)
    with listed show "name_at buffer e ! 0 \<noteq> UNUSED_ENTRY
        \<and> name_at buffer e ! 0 \<noteq> DELETED_ENTRY \<and> attribute_at buffer e \<noteq> FAKE_ENTRY"
      by (simp add: entry_listed_def attribute_at_def UNUSED_ENTRY_def DELETED_ENTRY_def
          FAKE_ENTRY_def)
  qed
qed

lemma fatfs_read_dir_listing_on_disk_order_stock:
  "read_dir_buffer zero_garbage hello_state 0
     = Some (Inr (hello_root, 224,
         hello_state\<lparr>hal := (hal hello_state)
           \<lparr>io_log := [(0, 512), (512, 4608), (9728, 7168)]\<rparr>\<rparr>))
   \<and> list_count (s_dirlist hello_state) = 0
   \<and> 32 dvd length hello_root \<and> length hello_root \<le> 65536
   \<and> filter (entry_listed hello_root) (slot_offsets (length hello_root)) = [0]
   \<and> fatfs_read_dir zero_garbage hello_state 0
       = Some (Inr (hello_state
           \<lparr>hal := (hal hello_state)\<lparr>io_log := [(0, 512), (512, 4608), (9728, 7168)]\<rparr>,
            s_dirlist :=
              \<lparr>entry_name = [[0x48, 0x45, 0x4C, 0x4C, 0x4F, 0x20, 0x20, 0x20,
                               0x54, 0x58, 0x54, 0x00]],
               attribute = [0x20], first_logical_cluster = [2], entry_size = [13],
               list_count = 1\<rparr>\<rparr>))
   \<and> name_at hello_root 0 ! 0 \<noteq> UNUSED_ENTRY \<and> name_at hello_root 0 ! 0 \<noteq> DELETED_ENTRY
   \<and> attribute_at hello_root 0 \<noteq> FAKE_ENTRY"
  using fatfs_read_dir_listing_on_disk_order
          [of zero_garbage hello_state 0 hello_root 224
              "hello_state\<lparr>hal := (hal hello_state)
                 \<lparr>io_log := [(0, 512), (512, 4608), (9728, 7168)]\<rparr>\<rparr>"]
  by (simp add: hello_read_dir_buffer hello_root_offsets hello_root_fields)

text \<open>
  C8. The listing of \<^verbatim>\<open>fatfs_read_dir\<close> is claimed to hold the parsed entries of
  every directory buffer in on-disk order, none of them deleted. The scan keeps the
  offsets it finds in an array of \<^verbatim>\<open>uint16_t\<close>, so the offset 65536 of the 2049th
  entry is stored as 0. In a root directory of 2064 entries whose first entry is
  deleted and whose 2049th entry is the only live one, the only entry that passes the
  scan is the one at offset 65536, and the listing holds the deleted entry, with
  \<open>name[0] = 0xE5\<close>, instead.
\<close>

theorem fatfs_read_dir_lists_deleted_entry:
  "fatfs_init zero_garbage (one_file big_root_image) initial_state ''floppy.img''
     = Inr (GOOD_CONDITION, ready_state big_root_image (boot_info 512 1 2064 9) 512 hello_fat)
   \<and> big_root_state
       = ResgisterPrint_file_func
           (ready_state big_root_image (boot_info 512 1 2064 9) 512 hello_fat)
   \<and> fatfs_read_dir zero_garbage big_root_state 0
       = Some (Inr (big_root_state
           \<lparr>hal := (hal big_root_state)
              \<lparr>io_log := [(0, 512), (512, 4608), (9728, 66048)]\<rparr>,
            s_dirlist := big_root_listing\<rparr>))
   \<and> take 66048 (drop 9728 big_root_image) = big_root
   \<and> filter (entry_listed big_root) (slot_offsets (length big_root)) = [65536]
   \<and> name_at big_root 65536
       = [0x48, 0x45, 0x4C, 0x4C, 0x4F, 0x20, 0x20, 0x20, 0x54, 0x58, 0x54, 0x00]
   \<and> entry_name big_root_listing
       = [[0xE5, 0x4C, 0x44, 0x20, 0x20, 0x20, 0x20, 0x20, 0x54, 0x58, 0x54, 0x00]]
   \<and> hd (entry_name big_root_listing) ! 0 = DELETED_ENTRY"
  by (simp add: fatfs_init_big_root big_root_read_dir big_root_offsets
      big_root_fields_at_hello root_of_big_root_image)
     (simp add: big_root_state_def big_root_listing_def DELETED_ENTRY_def)

section \<open>The geometry of the reads\<close>

subsection \<open>Cluster 2 of the stock image read as a directory\<close>

lemma hello_read_subdir_buffer:
  "read_dir_buffer g hello_state 2
     = Some (Inr (hello_data, 16,
         hello_state\<lparr>s_cluster_chain := [2, 0xFFF],
           hal := (hal hello_state)
             \<lparr>io_log := [(0, 512), (512, 4608), (16896, 512)]\<rparr>\<rparr>))"
  using read_dir_buffer_subdir [of hello_state hello_image 2 1 "0xFFF" g]
  by (simp add: read_FAT_entry_hello sector_33_hello)

lemma hello_read_subdir_returns:
  "\<exists>st'. fatfs_read_dir g hello_state 2 = Some (Inr st')"
proof -
  have "length (filter (entry_listed hello_data) (slot_offsets (length hello_data)))
          \<le> length (slot_offsets (length hello_data))"
    by (rule length_filter_le)
  then have "length (filter (entry_listed hello_data) (slot_offsets (length hello_data))) \<le> 16"
    by simp
  from fatfs_read_dir_listing [OF hello_read_subdir_buffer _ _ _ this, of g]
  show ?thesis
    by simp
qed

text \<open>
  C5 (as stated). The root directory is claimed to be read at sector
  \<open>reserved_sector_count + fat_count \<times> sectors_per_fat\<close> and cluster \<open>c\<close> at
  \<open>data_region_sector + (c - 2) \<times> sectors_per_cluster\<close>, for 1024 bytes per sector
  as for 512. An image with sectors of 1024 bytes, five sectors per FAT and the root
  directory of the stock image is accepted by \<^verbatim>\<open>fatfs_init\<close>; its root directory is
  at sector 11 and its cluster 2 at sector 18. \<^verbatim>\<open>fatfs_read_dir\<close> reads 14 sectors
  at sector 19 (byte 19456) and lists nothing; \<^verbatim>\<open>fatfs_read_file\<close> reads cluster 2
  at sector 33 (byte 33792) and delivers 1024 zero bytes, and so does the
  subdirectory branch of \<^verbatim>\<open>fatfs_read_dir\<close> for a directory at cluster 2.
\<close>

theorem fixed_geometry_1024_counterexample:
  "fatfs_init zero_garbage (one_file g1024_image) initial_state ''floppy.img''
     = Inr (GOOD_CONDITION, ready_state g1024_image (boot_info 1024 1 224 5) 1024 g1024_fat)
   \<and> g1024_state
       = ResgisterPrint_file_func
           (ready_state g1024_image (boot_info 1024 1 224 5) 1024 g1024_fat)
   \<and> spec_root_dir_sector (s_FAT12Infor g1024_state) = 11
   \<and> spec_cluster_to_sector (s_FAT12Infor g1024_state) 2 = 18
   \<and> take 7168 (drop (11 * 1024) g1024_image) = hello_root
   \<and> take 1024 (drop (18 * 1024) g1024_image) = hello_data @ replicate 512 0
   \<and> fatfs_read_dir zero_garbage g1024_state 0
       = Some (Inr (g1024_state
           \<lparr>hal := (hal g1024_state)
              \<lparr>io_log := [(0, 512), (1024, 5120), (19456, 14336)]\<rparr>\<rparr>))
   \<and> list_count (s_dirlist g1024_state) = 0
   \<and> fatfs_read_file zero_garbage g1024_state 2
       = Some (Inr (g1024_state
            \<lparr>hal := (hal g1024_state)
               \<lparr>io_log := [(0, 512), (1024, 5120), (33792, 1024)]\<rparr>,
             sink_calls := [(replicate 1024 0, 1024)]\<rparr>))
   \<and> read_dir_buffer zero_garbage g1024_state 2
       = Some (Inr (replicate 1024 0, 16,
           g1024_state\<lparr>s_cluster_chain := [2, 0xFFF],
             hal := (hal g1024_state)
               \<lparr>io_log := [(0, 512), (1024, 5120), (33792, 1024)]\<rparr>\<rparr>))"
  by (simp add: fatfs_init_g1024 g1024_read_dir g1024_read_file spec_geometry_g1024
      g1024_image_regions g1024_read_subdir_buffer)
     (simp add: g1024_state_def)

text \<open>
  C5 (amended). The geometry of the reads is fixed, not computed from the parsed
  fields. In a state left by \<^verbatim>\<open>fatfs_init\<close> (image open, device sector size equal
  to \<open>bytes_per_sector\<close>, call-back registered, no chain pending):
  \<^verbatim>\<open>fatfs_read_dir\<close> of the root directory brings \<open>root_entry_count div 16\<close>
  sectors at sector 19 into its buffer, and that is its one device read when it
  returns. For a first cluster \<open>f\<close> whose chain reaches a terminal value and whose
  sectors lie inside the image, \<^verbatim>\<open>fatfs_read_dir\<close> of the subdirectory at \<open>f\<close>
  brings into its buffer, and \<^verbatim>\<open>fatfs_read_file\<close> reads, one sector at sector
  \<open>c + 31\<close> for each cluster \<open>c\<close> of the chain, in chain order; these are the
  device reads of \<^verbatim>\<open>fatfs_read_dir\<close> when it returns. Sector \<open>c + 31\<close> is the
  sector \<open>data_region_sector + (c - 2) \<times> sectors_per_cluster\<close> of the
  specification, for every \<open>c \<ge> 2\<close>, when the parsed fields give
  \<open>data_region_sector = 33\<close> and \<open>sectors_per_cluster = 1\<close>, as on the stock image,
  whose root directory is at sector 19.
\<close>

theorem reads_at_fixed_sectors:
  assumes "s_file_img (hal st) = Some img"
    and "s_sector_size (hal st) = bytes_per_sector (s_FAT12Infor st)"
    and "print_file_callback st" and "s_cluster_chain st = []"
    and "fat_follow st k f = Some t" "0xFF8 \<le> t"
    and "\<forall>c \<in> set (butlast (f # fat_path st k f)).
           (unat c + 32) * unat (bytes_per_sector (s_FAT12Infor st)) \<le> length img"
  shows "(\<exists>buffer. read_dir_buffer g st 0
            = Some (Inr (buffer, unat (max_root_dir_entries (s_FAT12Infor st)),
                st\<lparr>hal := (hal st)\<lparr>io_log := io_log (hal st)
                  @ [(19 * unat (bytes_per_sector (s_FAT12Infor st)),
                      unat (max_root_dir_entries (s_FAT12Infor st) div 16)
                        * unat (bytes_per_sector (s_FAT12Infor st)))]\<rparr>\<rparr>)))
     \<and> (\<forall>st1. fatfs_read_dir g st 0 = Some (Inr st1) \<longrightarrow>
          io_log (hal st1) = io_log (hal st)
            @ [(19 * unat (bytes_per_sector (s_FAT12Infor st)),
                unat (max_root_dir_entries (s_FAT12Infor st) div 16)
                  * unat (bytes_per_sector (s_FAT12Infor st)))])
     \<and> (f \<noteq> 0 \<longrightarrow>
          read_dir_buffer g st f
            = Some (Inr (concat (map (\<lambda>c. take (unat (bytes_per_sector (s_FAT12Infor st)))
                      (drop ((unat c + 31) * unat (bytes_per_sector (s_FAT12Infor st))) img))
                        (butlast (f # fat_path st k f))),
                  k * 16,
                  st\<lparr>s_cluster_chain := f # fat_path st k f,
                     hal := (hal st)\<lparr>io_log := io_log (hal st)
                       @ map (\<lambda>c. ((unat c + 31) * unat (bytes_per_sector (s_FAT12Infor st)),
                                   unat (bytes_per_sector (s_FAT12Infor st))))
                           (butlast (f # fat_path st k f))\<rparr>\<rparr>))
          \<and> (\<forall>st3. fatfs_read_dir g st f = Some (Inr st3) \<longrightarrow>
                io_log (hal st3) = io_log (hal st)
                  @ map (\<lambda>c. ((unat c + 31) * unat (bytes_per_sector (s_FAT12Infor st)),
                              unat (bytes_per_sector (s_FAT12Infor st))))
                      (butlast (f # fat_path st k f))))
     \<and> (\<exists>st2. fatfs_read_file g st f = Some (Inr st2)
           \<and> io_log (hal st2) = io_log (hal st)
               @ map (\<lambda>c. ((unat c + 31) * unat (bytes_per_sector (s_FAT12Infor st)),
                           unat (bytes_per_sector (s_FAT12Infor st))))
                   (butlast (f # fat_path st k f)))
     \<and> (spec_data_region_sector (s_FAT12Infor st) = 33
          \<and> sectors_per_cluster (s_FAT12Infor st) = 1 \<longrightarrow>
        (\<forall>c. 2 \<le> c \<longrightarrow> unat c + 31 = spec_cluster_to_sector (s_FAT12Infor st) c))"
proof (intro conjI impI allI)
  show "\<exists>buffer. read_dir_buffer g st 0
            = Some (Inr (buffer, unat (max_root_dir_entries (s_FAT12Infor st)),
                st\<lparr>hal := (hal st)\<lparr>io_log := io_log (hal st)
                  @ [(19 * unat (bytes_per_sector (s_FAT12Infor st)),
                      unat (max_root_dir_entries (s_FAT12Infor st) div 16)
                        * unat (bytes_per_sector (s_FAT12Infor st)))]\<rparr>\<rparr>))"
    using assms(1,2) by (rule read_dir_buffer_root_log)
next
  fix st1
  assume "fatfs_read_dir g st 0 = Some (Inr st1)"
  with assms(1,2) show "io_log (hal st1) = io_log (hal st)
           @ [(19 * unat (bytes_per_sector (s_FAT12Infor st)),
               unat (max_root_dir_entries (s_FAT12Infor st) div 16)
                 * unat (bytes_per_sector (s_FAT12Infor st)))]"
    by (rule fatfs_read_dir_root_log)
next
  assume "f \<noteq> 0"
  with assms(1,2,4) show "read_dir_buffer g st f
            = Some (Inr (concat (map (\<lambda>c. take (unat (bytes_per_sector (s_FAT12Infor st)))
                      (drop ((unat c + 31) * unat (bytes_per_sector (s_FAT12Infor st))) img))
                        (butlast (f # fat_path st k f))),
                  k * 16,
                  st\<lparr>s_cluster_chain := f # fat_path st k f,
                     hal := (hal st)\<lparr>io_log := io_log (hal st)
                       @ map (\<lambda>c. ((unat c + 31) * unat (bytes_per_sector (s_FAT12Infor st)),
                                   unat (bytes_per_sector (s_FAT12Infor st))))
                           (butlast (f # fat_path st k f))\<rparr>\<rparr>))"
    using assms(5-7) by (rule read_dir_buffer_subdir)
next
  fix st3
  assume "f \<noteq> 0" and "fatfs_read_dir g st f = Some (Inr st3)"
  with assms(1,2,4) assms(5-7) show "io_log (hal st3) = io_log (hal st)
                  @ map (\<lambda>c. ((unat c + 31) * unat (bytes_per_sector (s_FAT12Infor st)),
                              unat (bytes_per_sector (s_FAT12Infor st))))
                      (butlast (f # fat_path st k f))"
    by (intro fatfs_read_dir_subdir_log [of st img f k t g st3])
next
  from fatfs_read_file_clusters [OF assms(1-7), of g]
  show "\<exists>st2. fatfs_read_file g st f = Some (Inr st2)
           \<and> io_log (hal st2) = io_log (hal st)
               @ map (\<lambda>c. ((unat c + 31) * unat (bytes_per_sector (s_FAT12Infor st)),
                           unat (bytes_per_sector (s_FAT12Infor st))))
                   (butlast (f # fat_path st k f))"
    by (simp del: butlast.simps)
next
  fix c :: "16 word"
  assume "spec_data_region_sector (s_FAT12Infor st) = 33
          \<and> sectors_per_cluster (s_FAT12Infor st) = 1" and c: "2 \<le> c"
  then have "spec_data_region_sector (s_FAT12Infor st) = 33"
    and "unat (sectors_per_cluster (s_FAT12Infor st)) = 1"
    by simp_all
  moreover from c have "2 \<le> unat c"
    by (simp add: word_le_nat_alt)
  ultimately show "unat c + 31 = spec_cluster_to_sector (s_FAT12Infor st) c"
    by (simp add: spec_cluster_to_sector_def)
qed

theorem reads_at_fixed_sectors_witness:
  "fatfs_init zero_garbage (one_file hello_image) initial_state ''floppy.img''
     = Inr (GOOD_CONDITION, ready_state hello_image (boot_info 512 1 224 9) 512 hello_fat)
   \<and> hello_state
       = ResgisterPrint_file_func
           (ready_state hello_image (boot_info 512 1 224 9) 512 hello_fat)
   \<and> s_file_img (hal hello_state) = Some hello_image
   \<and> s_sector_size (hal hello_state) = bytes_per_sector (s_FAT12Infor hello_state)
   \<and> print_file_callback hello_state \<and> s_cluster_chain hello_state = []
   \<and> fat_follow hello_state 1 2 = Some 0xFFF
   \<and> butlast (2 # fat_path hello_state 1 2) = [2]
   \<and> (unat (2 :: 16 word) + 32) * unat (bytes_per_sector (s_FAT12Infor hello_state))
       \<le> length hello_image
   \<and> (\<exists>buffer. read_dir_buffer zero_garbage hello_state 0
         = Some (Inr (buffer, 224,
             hello_state\<lparr>hal := (hal hello_state)
               \<lparr>io_log := [(0, 512), (512, 4608), (19 * 512, 14 * 512)]\<rparr>\<rparr>)))
   \<and> fatfs_read_dir zero_garbage hello_state 0 = Some (Inr hello_once)
   \<and> io_log (hal hello_once) = [(0, 512), (512, 4608), (19 * 512, 14 * 512)]
   \<and> read_dir_buffer zero_garbage hello_state 2
       = Some (Inr (hello_data, 16,
           hello_state\<lparr>s_cluster_chain := [2, 0xFFF],
             hal := (hal hello_state)
               \<lparr>io_log := [(0, 512), (512, 4608), (33 * 512, 512)]\<rparr>\<rparr>))
   \<and> (\<exists>st3. fatfs_read_dir zero_garbage hello_state 2 = Some (Inr st3)
         \<and> io_log (hal st3) = [(0, 512), (512, 4608), (33 * 512, 512)])
   \<and> (\<exists>st2. fatfs_read_file zero_garbage hello_state 2 = Some (Inr st2)
         \<and> io_log (hal st2) = [(0, 512), (512, 4608), (33 * 512, 512)])
   \<and> spec_root_dir_sector (s_FAT12Infor hello_state) = 19
   \<and> spec_data_region_sector (s_FAT12Infor hello_state) = 33
   \<and> sectors_per_cluster (s_FAT12Infor hello_state) = 1
   \<and> spec_cluster_to_sector (s_FAT12Infor hello_state) 2 = 33"
proof -
  have hyps: "s_file_img (hal hello_state) = Some hello_image"
    "s_sector_size (hal hello_state) = bytes_per_sector (s_FAT12Infor hello_state)"
    "print_file_callback hello_state" "s_cluster_chain hello_state = []"
    "fat_follow hello_state 1 2 = Some 0xFFF" "(0xFF8 :: 16 word) \<le> 0xFFF"
    "\<forall>c \<in> set (butlast (2 # fat_path hello_state 1 2)).
       (unat c + 32) * unat (bytes_per_sector (s_FAT12Infor hello_state)) \<le> length hello_image"
    and path: "butlast (2 # fat_path hello_state 1 2) = [2]"
    by (simp_all add: read_FAT_entry_hello)
  note fixed = reads_at_fixed_sectors [OF hyps, of zero_garbage, unfolded path]
  from hello_read_subdir_returns [of zero_garbage] obtain st3 where
    st3: "fatfs_read_dir zero_garbage hello_state 2 = Some (Inr st3)"
    by blast
  with fixed have "io_log (hal st3) = [(0, 512), (512, 4608), (33 * 512, 512)]"
    by (simp add: read_FAT_entry_hello)
  with st3 have sub: "\<exists>st3. fatfs_read_dir zero_garbage hello_state 2 = Some (Inr st3)
         \<and> io_log (hal st3) = [(0, 512), (512, 4608), (33 * 512, 512)]"
    by blast
  from fixed hello_read_dir_first [of zero_garbage]
  have root: "io_log (hal hello_once) = [(0, 512), (512, 4608), (19 * 512, 14 * 512)]"
    by (simp add: word_div_def)
  from fixed have rdfile: "\<exists>st2. fatfs_read_file zero_garbage hello_state 2 = Some (Inr st2)
         \<and> io_log (hal st2) = [(0, 512), (512, 4608), (33 * 512, 512)]"
    by (simp add: read_FAT_entry_hello)
  from fixed have buf0: "\<exists>buffer. read_dir_buffer zero_garbage hello_state 0
         = Some (Inr (buffer, 224,
             hello_state\<lparr>hal := (hal hello_state)
               \<lparr>io_log := [(0, 512), (512, 4608), (19 * 512, 14 * 512)]\<rparr>\<rparr>))"
    by (simp add: word_div_def)
  from fixed have buf2: "read_dir_buffer zero_garbage hello_state 2
       = Some (Inr (hello_data, 16,
           hello_state\<lparr>s_cluster_chain := [2, 0xFFF],
             hal := (hal hello_state)
               \<lparr>io_log := [(0, 512), (512, 4608), (33 * 512, 512)]\<rparr>\<rparr>))"
    by (simp add: read_FAT_entry_hello sector_33_hello)
  have state: "hello_state
       = ResgisterPrint_file_func
           (ready_state hello_image (boot_info 512 1 224 9) 512 hello_fat)"
    by (simp add: hello_state_def)
  show ?thesis
    using hyps(1-5) path sub root rdfile buf0 buf2 state hello_read_dir_first [of zero_garbage]
    by (simp add: spec_geometry_stock fatfs_init_test_images)
qed

section \<open>The entry count across calls\<close>



section \<open>The sector size of the device\<close>

text \<open>
  C9. After the device is opened the sector size is 512. For every argument \<open>n\<close> of
  \<^verbatim>\<open>kmc_update_sector_size\<close> in that state: when \<open>n > 0\<close> and \<open>n\<close> is a
  multiple of 512, the configured size afterwards is \<open>n\<close> and \<open>n\<close> is returned;
  otherwise the size stays 512 and 512 is returned.
\<close>

theorem kmc_update_sector_size_after_open:
  assumes "s_sector_size h = 512"
  shows "kmc_update_sector_size h n =
           (if 0 < n \<and> n mod 512 = 0
            then (ucast n, h\<lparr>s_sector_size := n\<rparr>)
            else (ucast (s_sector_size h), h))"
  using assms by (auto simp: kmc_update_sector_size_def KMC_DEFAULT_SECTOR_SIZE_def)

theorem kmc_update_sector_size_after_open_witness:
  "kmc_update_sector_size
     \<lparr>s_file_img = Some [], s_sector_size = 512, io_log = []\<rparr> 1024 =
     (1024, \<lparr>s_file_img = Some [], s_sector_size = 1024, io_log = []\<rparr>)
   \<and> kmc_update_sector_size
     \<lparr>s_file_img = Some [], s_sector_size = 512, io_log = []\<rparr> 700 =
     (512, \<lparr>s_file_img = Some [], s_sector_size = 512, io_log = []\<rparr>)"
  using kmc_update_sector_size_after_open
          [of "\<lparr>s_file_img = Some [], s_sector_size = 512, io_log = []\<rparr>" 1024]
        kmc_update_sector_size_after_open
          [of "\<lparr>s_file_img = Some [], s_sector_size = 512, io_log = []\<rparr>" 700]
  by simp

end
